theory Spec2Isabelle
  imports Main "HOL-Library.Stream" "HOL-Library.Signed_Division" "HOL-Library.Char_ord"
    "HOL-Library.List_Lexorder"
begin

section \<open>The file store of inbucket (pkg/storage/file/fstore.go)\<close>

text \<open>
  A shallow embedding of \<^verbatim>\<open>fstore.go\<close>: the sequence generator, the message IDs, the
  resolution of a mailbox to its directory, the construction of the store and the store's
  operations. Everything the file calls but does not define (the operating system, the
  methods of \<^verbatim>\<open>mbox\<close>, the name policy and the hash) is a field of an environment record,
  so a theorem about an operation holds for every behaviour of its collaborators.
  Every call of a collaborator is recorded, with its outcome, in a trace.
\<close>

subsection \<open>Values\<close>

text \<open>A Go \<^verbatim>\<open>error\<close> value; \<^verbatim>\<open>nil\<close> is \<open>None\<close> of \<open>error option\<close>.\<close>

datatype error = Error string

text \<open>
  What a call can do: return a value, return an error, or panic (a slice expression out of
  range is a run-time panic in Go).
\<close>

datatype 'a outcome = Ok 'a | Err error | Panic

type_synonym path = string

text \<open>
  The fields of a \<^verbatim>\<open>time.Time\<close> that the ID format reads. Go computes them from an
  instant, so month, day, hour, minute and second are always in their calendar ranges; the
  year is any integer.
\<close>

record Time =
  Year :: int
  Month :: int
  Day :: int
  Hour :: int
  Minute :: int
  Second :: int



subsection \<open>The sequence generator\<close>

text \<open>
  \<^verbatim>\<open>for i := 0; true; i = (i + 1) % 10000 { c <- i }\<close> never returns; what it does is
  the infinite sequence of values it sends, here a stream. \<open>smod\<close> is Go's \<^verbatim>\<open>%\<close>
  (truncated). The channel is a FIFO with a single producer, so the \<open>n\<close>-th value received
  from it is the \<open>n\<close>-th value sent.
\<close>

primcorec countGenerator_loop :: "int \<Rightarrow> int stream" where
  "countGenerator_loop i = SCons i (countGenerator_loop ((i + 1) smod 10000))"

definition countGenerator :: "int stream" where
  "countGenerator = countGenerator_loop 0"

subsection \<open>Message IDs\<close>

definition digit_char :: "nat \<Rightarrow> char" where
  "digit_char d = ''0123456789'' ! d"

fun digits :: "nat \<Rightarrow> string" where
  "digits n = (if n < 10 then [digit_char n] else digits (n div 10) @ [digit_char (n mod 10)])"

declare digits.simps [simp del]

definition zero_pad :: "nat \<Rightarrow> string \<Rightarrow> string" where
  "zero_pad w s = replicate (w - length s) CHR ''0'' @ s"

text \<open>
  \<^verbatim>\<open>appendInt(b, x, width)\<close> of package time: a minus sign for a negative number, then
  the decimal digits padded with zeros to at least \<open>width\<close> digits.
\<close>

definition appendInt :: "int \<Rightarrow> nat \<Rightarrow> string" where
  "appendInt x width =
     (if x < 0 then CHR ''-'' # zero_pad width (digits (nat (- x)))
      else zero_pad width (digits (nat x)))"

text \<open>
  \<^verbatim>\<open>fmt.Sprintf("%04d", n)\<close>: the decimal number padded with zeros to a width of at
  least 4, the sign counting in the width.
\<close>

definition Sprintf_04d :: "int \<Rightarrow> string" where
  "Sprintf_04d n =
     (if n < 0 then CHR ''-'' # zero_pad 3 (digits (nat (- n)))
      else zero_pad 4 (digits (nat n)))"

text \<open>\<^verbatim>\<open>date.Format("20060102T150405")\<close>.\<close>

definition generatePrefix :: "Time \<Rightarrow> string" where
  "generatePrefix date =
     appendInt (Year date) 4 @ appendInt (Month date) 2 @ appendInt (Day date) 2 @ ''T'' @
     appendInt (Hour date) 2 @ appendInt (Minute date) 2 @ appendInt (Second date) 2"

text \<open>
  \<^verbatim>\<open>generatePrefix(date) + "-" + fmt.Sprintf("%04d", <-countChannel)\<close>; \<open>k\<close> is the
  number of values received from the channel before this one.
\<close>

definition generateID :: "Time \<Rightarrow> nat \<Rightarrow> string" where
  "generateID date k = generatePrefix date @ ''-'' @ Sprintf_04d (countGenerator !! k)"



subsection \<open>Paths\<close>

text \<open>
  \<^verbatim>\<open>filepath.Join\<close> of the Go library on Unix: the elements from the first non-empty one
  on are joined with a slash and the result is cleaned (\<^verbatim>\<open>filepath.Clean\<close>: empty and
  \<^verbatim>\<open>.\<close> elements go, \<^verbatim>\<open>..\<close> removes the element before it).
\<close>

fun split_on :: "char \<Rightarrow> string \<Rightarrow> string list" where
  "split_on c [] = [[]]"
| "split_on c (x # xs) =
     (if x = c then [] # split_on c xs
      else (case split_on c xs of [] \<Rightarrow> [[x]] | y # ys \<Rightarrow> (x # y) # ys))"

fun join_sep :: "string \<Rightarrow> string list \<Rightarrow> string" where
  "join_sep sep [] = []"
| "join_sep sep [x] = x"
| "join_sep sep (x # y # ys) = x @ sep @ join_sep sep (y # ys)"

text \<open>The elements kept by \<^verbatim>\<open>Clean\<close>, last one first in the accumulator.\<close>

fun clean_elems :: "bool \<Rightarrow> string list \<Rightarrow> string list \<Rightarrow> string list" where
  "clean_elems rooted acc [] = rev acc"
| "clean_elems rooted acc (c # cs) =
     (if c = [] \<or> c = ''.'' then clean_elems rooted acc cs
      else if c = ''..'' then
        (case acc of
           [] \<Rightarrow> if rooted then clean_elems rooted [] cs else clean_elems rooted [''..''] cs
         | t # ts \<Rightarrow>
             if t = ''..'' then clean_elems rooted (''..'' # acc) cs
             else clean_elems rooted ts cs)
      else clean_elems rooted (c # acc) cs)"

definition filepath_Clean :: "path \<Rightarrow> path" where
  "filepath_Clean p =
     (if p = [] then ''.''
      else
        let rooted = (hd p = CHR ''/'');
            out = join_sep ''/'' (clean_elems rooted [] (split_on CHR ''/'' p))
        in if rooted then CHR ''/'' # out else if out = [] then ''.'' else out)"

definition filepath_Join :: "path list \<Rightarrow> path" where
  "filepath_Join elem =
     (case dropWhile (\<lambda>e. e = []) elem of
        [] \<Rightarrow> []
      | e # es \<Rightarrow> filepath_Clean (join_sep ''/'' (e # es)))"

text \<open>
  An element that \<^verbatim>\<open>Clean\<close> keeps as it is, and a path that is absolute and clean: a
  slash before each of its elements, each of which is kept.
\<close>

definition plain :: "string \<Rightarrow> bool" where
  "plain c \<longleftrightarrow> c \<noteq> [] \<and> CHR ''/'' \<notin> set c \<and> c \<noteq> ''.'' \<and> c \<noteq> ''..''"

definition clean_absolute :: "path \<Rightarrow> bool" where
  "clean_absolute p \<longleftrightarrow>
     p \<noteq> [] \<and> hd p = CHR ''/'' \<and> list_all plain (split_on CHR ''/'' (tl p))"

text \<open>
  A slice expression \<^verbatim>\<open>s[lo:hi]\<close> on a string: the bytes from \<open>lo\<close> up to \<open>hi\<close>, and a
  run-time panic (\<open>None\<close>) unless \<open>lo \<le> hi \<le> len(s)\<close>.
\<close>

definition go_slice :: "string \<Rightarrow> nat \<Rightarrow> nat \<Rightarrow> string option" where
  "go_slice s lo hi = (if lo \<le> hi \<and> hi \<le> length s then Some (take (hi - lo) (drop lo s)) else None)"

subsection \<open>The data of the store\<close>

definition indexFileName :: string where
  "indexFileName = ''index.gob''"

text \<open>The two fields of \<^verbatim>\<open>config.Storage\<close> that \<^verbatim>\<open>New\<close> reads.\<close>

record Storage =
  Path :: string
  MailboxMsgCap :: int

text \<open>
  \<^verbatim>\<open>Store\<close>. Its lock registry (\<^verbatim>\<open>hashLock\<close>) has no field here: the model is
  sequential, and a lock is identified with the key it is registered under.
\<close>

record Store =
  Store_path :: path
  mailPath :: path
  messageCap :: int

text \<open>A record of the index: the exported fields of the message type of the package.\<close>

record fmessage =
  Fid :: string
  Fdate :: Time
  Ffrom :: string
  Fto :: "string list"
  Fsize :: int
  Fsubject :: string

text \<open>
  \<^verbatim>\<open>mbox\<close>, with the fields that \<^verbatim>\<open>fstore.go\<close> sets or reads. \<open>RWMutex\<close> holds the key
  of the lock that \<^verbatim>\<open>hashLock.Get\<close> returned.
\<close>

record mbox =
  RWMutex :: string
  store :: Store
  name :: string
  dirName :: string
  path :: path
  indexPath :: path
  messages :: "fmessage list"

text \<open>
  The byte stream that \<^verbatim>\<open>m.Source()\<close> returns: the bytes it delivers, and the error a
  read ends with when it is not the end of the stream.
\<close>

record reader =
  content :: string
  read_error :: "error option"

text \<open>A \<^verbatim>\<open>storage.Message\<close>, by what its methods return.\<close>

record message =
  Mailbox :: string
  Source :: "error + reader"
  Date :: Time
  From :: string
  To :: "string list"
  Subject :: string

record FileInfo =
  Name :: string
  IsDir :: bool

subsection \<open>Calls and traces\<close>

text \<open>
  The calls that leave \<^verbatim>\<open>fstore.go\<close>. A trace lists them in the order they are made,
  each with the error it returned (\<open>None\<close>: no error). \<open>Mb_writeIndex\<close> carries the in-memory
  list the call is to persist, \<open>Visit\<close> the list handed to the visitor and its answer.
\<close>

datatype call =
    Stat path | MkdirAll path | Errorf string
  | Lock string | Unlock string | RLock string | RUnlock string
  | OpenSource | CloseSource
  | Mb_newMessage | Mb_createDir path | Mb_writeIndex path "fmessage list"
  | Create path | Copy path | Flush path | CloseFile path | Remove path
  | Mb_getMessage path string | Mb_getMessages path | Mb_removeMessage path string | Mb_purge path
  | ReadDir path
  | Visit "fmessage list" bool

type_synonym event = "call \<times> error option"

type_synonym 'w state = "event list \<times> 'w"

text \<open>
  Everything \<^verbatim>\<open>fstore.go\<close> calls and does not define, over a state \<open>'w\<close> of the world
  outside (the disk, the clock): the name policy and the hash, the operating system, and
  the methods of \<^verbatim>\<open>mbox\<close>, which are defined in another file of the package.
  \<open>newMessage\<close> returns the mailbox too, since it may load the index into it; the other
  methods are taken to leave the descriptor they are called on as it is.
\<close>

record 'w env =
  ParseMailboxName :: "string \<Rightarrow> error + string"
  HashMailboxName :: "string \<Rightarrow> string"
  os_Stat :: "path \<Rightarrow> 'w \<Rightarrow> error option \<times> 'w"
  os_MkdirAll :: "path \<Rightarrow> 'w \<Rightarrow> error option \<times> 'w"
  os_Create :: "path \<Rightarrow> 'w \<Rightarrow> error option \<times> 'w"
  io_Copy :: "path \<Rightarrow> reader \<Rightarrow> 'w \<Rightarrow> (error + int) \<times> 'w"
  bufio_Flush :: "path \<Rightarrow> 'w \<Rightarrow> error option \<times> 'w"
  file_Close :: "path \<Rightarrow> 'w \<Rightarrow> error option \<times> 'w"
  os_Remove :: "path \<Rightarrow> 'w \<Rightarrow> error option \<times> 'w"
  reader_Close :: "reader \<Rightarrow> 'w \<Rightarrow> error option \<times> 'w"
  ioutil_ReadDir :: "path \<Rightarrow> 'w \<Rightarrow> (error + FileInfo list) \<times> 'w"
  newMessage :: "mbox \<Rightarrow> 'w \<Rightarrow> ((error + fmessage) \<times> mbox) \<times> 'w"
  createDir :: "mbox \<Rightarrow> 'w \<Rightarrow> error option \<times> 'w"
  writeIndex :: "mbox \<Rightarrow> 'w \<Rightarrow> error option \<times> 'w"
  getMessage :: "mbox \<Rightarrow> string \<Rightarrow> 'w \<Rightarrow> (error + fmessage) \<times> 'w"
  getMessages :: "mbox \<Rightarrow> 'w \<Rightarrow> (error + fmessage list) \<times> 'w"
  removeMessage :: "mbox \<Rightarrow> string \<Rightarrow> 'w \<Rightarrow> error option \<times> 'w"
  purge :: "mbox \<Rightarrow> 'w \<Rightarrow> error option \<times> 'w"

definition err_of :: "error + 'a \<Rightarrow> error option" where
  "err_of r = (case r of Inl e \<Rightarrow> Some e | Inr _ \<Rightarrow> None)"

text \<open>
  A call that returns only an error, one that returns a value or an error,
  \<^verbatim>\<open>mb.newMessage()\<close>, and a call that cannot fail.
\<close>

definition traced :: "call \<Rightarrow> ('w \<Rightarrow> error option \<times> 'w) \<Rightarrow> 'w state \<Rightarrow> error option \<times> 'w state" where
  "traced c f s = (case f (snd s) of (r, w') \<Rightarrow> (r, (fst s @ [(c, r)], w')))"

definition traced_val :: "call \<Rightarrow> ('w \<Rightarrow> (error + 'a) \<times> 'w) \<Rightarrow> 'w state \<Rightarrow> (error + 'a) \<times> 'w state" where
  "traced_val c f s = (case f (snd s) of (r, w') \<Rightarrow> (r, (fst s @ [(c, err_of r)], w')))"

definition traced_new ::
  "('w \<Rightarrow> ((error + fmessage) \<times> mbox) \<times> 'w) \<Rightarrow> 'w state \<Rightarrow> (error + fmessage) \<times> mbox \<times> 'w state" where
  "traced_new f s =
     (case f (snd s) of ((r, mb1), w') \<Rightarrow> (r, mb1, (fst s @ [(Mb_newMessage, err_of r)], w')))"

definition noted :: "call \<Rightarrow> 'w state \<Rightarrow> 'w state" where
  "noted c s = (fst s @ [(c, None)], snd s)"

text \<open>
  Modelled from the spec: the raw content file of a record, \<^verbatim>\<open>fm.rawPath()\<close>, is
  \<^verbatim>\<open><mailbox-dir>/<id>.raw\<close>; the method is defined with the message type, in
  another file of the package.
\<close>

definition rawPath :: "mbox \<Rightarrow> fmessage \<Rightarrow> path" where
  "rawPath mb fm = filepath_Join [path mb, Fid fm @ ''.raw'']"

subsection \<open>Resolving a mailbox\<close>

definition mbox :: "'w env \<Rightarrow> Store \<Rightarrow> string \<Rightarrow> mbox outcome" where
  "mbox env fs mailbox =
     (case ParseMailboxName env mailbox of
        Inl err \<Rightarrow> Err err
      | Inr nm \<Rightarrow>
          let hash = HashMailboxName env nm in
          (case go_slice hash 0 3 of
             None \<Rightarrow> Panic
           | Some s1 \<Rightarrow>
               (case go_slice hash 0 6 of
                  None \<Rightarrow> Panic
                | Some s2 \<Rightarrow>
                    let p = filepath_Join [mailPath fs, s1, s2, hash];
                        ip = filepath_Join [p, indexFileName]
                    in Ok \<lparr>RWMutex = hash, store = fs, name = nm, dirName = hash,
                           path = p, indexPath = ip, messages = []\<rparr>)))"

definition mboxFromHash :: "Store \<Rightarrow> string \<Rightarrow> mbox outcome" where
  "mboxFromHash fs hash =
     (case go_slice hash 0 3 of
        None \<Rightarrow> Panic
      | Some s1 \<Rightarrow>
          (case go_slice hash 0 6 of
             None \<Rightarrow> Panic
           | Some s2 \<Rightarrow>
               let p = filepath_Join [mailPath fs, s1, s2, hash];
                   ip = filepath_Join [p, indexFileName]
               in Ok \<lparr>RWMutex = hash, store = fs, name = [], dirName = hash,
                      path = p, indexPath = ip, messages = []\<rparr>))"

subsection \<open>Constructing the store\<close>

definition New :: "'w env \<Rightarrow> Storage \<Rightarrow> 'w state \<Rightarrow> Store option \<times> 'w state" where
  "New env cfg s =
     (let p = Path cfg in
      if p = [] then (None, noted (Errorf ''No value configured for datastore path'') s)
      else
        let mp = filepath_Join [p, ''mail''];
            fs = \<lparr>Store_path = p, mailPath = mp, messageCap = MailboxMsgCap cfg\<rparr>
        in (case traced (Stat mp) (os_Stat env mp) s of
              (None, s1) \<Rightarrow> (Some fs, s1)
            | (Some err, s1) \<Rightarrow>
                (case traced (MkdirAll mp) (os_MkdirAll env mp) s1 of
                   (None, s2) \<Rightarrow> (Some fs, s2)
                 | (Some err2, s2) \<Rightarrow> (Some fs, noted (Errorf ''Error creating dir'') s2))))"

subsection \<open>Adding a message\<close>

text \<open>
  \<^verbatim>\<open>AddMessage\<close> between \<^verbatim>\<open>mb.Lock()\<close> and the deferred \<^verbatim>\<open>mb.Unlock()\<close>. The result
  carries the mailbox as the call leaves it, whose \<open>messages\<close> are the in-memory list.
  The file and its buffered writer are named by the path of the file.
\<close>

definition AddMessage_locked ::
  "'w env \<Rightarrow> mbox \<Rightarrow> message \<Rightarrow> 'w state \<Rightarrow> string outcome \<times> mbox \<times> 'w state" where
  "AddMessage_locked env mb m s =
     (case traced_val OpenSource (\<lambda>w. (Source m, w)) s of
        (Inl err, s1) \<Rightarrow> (Err err, mb, s1)
      | (Inr r, s1) \<Rightarrow>
     (case traced_new (newMessage env mb) s1 of
        (Inl err, mb1, s2) \<Rightarrow> (Err err, mb1, s2)
      | (Inr fm, mb1, s2) \<Rightarrow>
     (case traced (Mb_createDir (path mb1)) (createDir env mb1) s2 of
        (Some err, s3) \<Rightarrow> (Err err, mb1, s3)
      | (None, s3) \<Rightarrow>
     (case traced (Create (rawPath mb1 fm)) (os_Create env (rawPath mb1 fm)) s3 of
        (Some err, s4) \<Rightarrow> (Err err, mb1, s4)
      | (None, s4) \<Rightarrow>
     (case traced_val (Copy (rawPath mb1 fm)) (io_Copy env (rawPath mb1 fm) r) s4 of
        (Inl err, s5) \<Rightarrow>
          let s6 = snd (traced (CloseFile (rawPath mb1 fm)) (file_Close env (rawPath mb1 fm)) s5);
              s7 = snd (traced (Remove (rawPath mb1 fm)) (os_Remove env (rawPath mb1 fm)) s6)
          in (Err err, mb1, s7)
      | (Inr sz, s5) \<Rightarrow>
     (let s6 = snd (traced CloseSource (reader_Close env r) s5) in
     (case traced (Flush (rawPath mb1 fm)) (bufio_Flush env (rawPath mb1 fm)) s6 of
        (Some err, s7) \<Rightarrow>
          let s8 = snd (traced (CloseFile (rawPath mb1 fm)) (file_Close env (rawPath mb1 fm)) s7);
              s9 = snd (traced (Remove (rawPath mb1 fm)) (os_Remove env (rawPath mb1 fm)) s8)
          in (Err err, mb1, s9)
      | (None, s7) \<Rightarrow>
     (case traced (CloseFile (rawPath mb1 fm)) (file_Close env (rawPath mb1 fm)) s7 of
        (Some err, s8) \<Rightarrow>
          (Err err, mb1, snd (traced (Remove (rawPath mb1 fm)) (os_Remove env (rawPath mb1 fm)) s8))
      | (None, s8) \<Rightarrow>
     (let fm2 = fm\<lparr>Fdate := Date m, Ffrom := From m, Fto := To m, Fsize := sz,
                   Fsubject := Subject m\<rparr>;
          mb2 = mb1\<lparr>messages := messages mb1 @ [fm2]\<rparr>
      in
     (case traced (Mb_writeIndex (indexPath mb2) (messages mb2)) (writeIndex env mb2) s8 of
        (Some err, s9) \<Rightarrow>
          (Err err, mb2, snd (traced (Remove (rawPath mb2 fm2)) (os_Remove env (rawPath mb2 fm2)) s9))
      | (None, s9) \<Rightarrow> (Ok (Fid fm2), mb2, s9)))))))))))"

text \<open>
  \<^verbatim>\<open>AddMessage\<close>. The second component is the mailbox descriptor of the call when it
  returns (\<open>None\<close> when none was built); the caller of the Go method does not get it.
\<close>

definition AddMessage ::
  "'w env \<Rightarrow> Store \<Rightarrow> message \<Rightarrow> 'w state \<Rightarrow> string outcome \<times> mbox option \<times> 'w state" where
  "AddMessage env fs m s =
     (case mbox env fs (Mailbox m) of
        Panic \<Rightarrow> (Panic, None, s)
      | Err err \<Rightarrow> (Err err, None, s)
      | Ok mb \<Rightarrow>
          (case AddMessage_locked env mb m (noted (Lock (RWMutex mb)) s) of
             (r, mb', s') \<Rightarrow> (r, Some mb', noted (Unlock (RWMutex mb)) s')))"

subsection \<open>Reading, removing and purging\<close>

definition out_of :: "error + 'a \<Rightarrow> 'a outcome" where
  "out_of r = (case r of Inl e \<Rightarrow> Err e | Inr v \<Rightarrow> Ok v)"



definition GetMessages ::
  "'w env \<Rightarrow> Store \<Rightarrow> string \<Rightarrow> 'w state \<Rightarrow> fmessage list outcome \<times> 'w state" where
  "GetMessages env fs mailbox s =
     (case mbox env fs mailbox of
        Panic \<Rightarrow> (Panic, s)
      | Err err \<Rightarrow> (Err err, s)
      | Ok mb \<Rightarrow>
          (case traced_val (Mb_getMessages (path mb)) (getMessages env mb)
                  (noted (RLock (RWMutex mb)) s) of
             (r, s') \<Rightarrow> (out_of r, noted (RUnlock (RWMutex mb)) s')))"



subsection \<open>Visiting the mailboxes\<close>

text \<open>
  The visitor is Go code of the caller: it gets the messages of one mailbox, may change
  the world, and answers whether to go on. Each of the three loops of \<^verbatim>\<open>VisitMailboxes\<close>
  is a function over the entries still to come; it answers \<open>None\<close> when it ran to its end
  and \<open>Some r\<close> when \<^verbatim>\<open>VisitMailboxes\<close> returned \<open>r\<close> (or panicked) from inside it.
\<close>

definition visit :: "(fmessage list \<Rightarrow> 'w \<Rightarrow> bool \<times> 'w) \<Rightarrow> fmessage list \<Rightarrow> 'w state \<Rightarrow> bool \<times> 'w state" where
  "visit f msgs s = (case f msgs (snd s) of (cont, w') \<Rightarrow> (cont, (fst s @ [(Visit msgs cont, None)], w')))"

fun visit_level3 ::
  "'w env \<Rightarrow> Store \<Rightarrow> (fmessage list \<Rightarrow> 'w \<Rightarrow> bool \<times> 'w) \<Rightarrow> FileInfo list \<Rightarrow> 'w state \<Rightarrow>
   unit outcome option \<times> 'w state" where
  "visit_level3 env fs f [] s = (None, s)"
| "visit_level3 env fs f (inf3 # infos3) s =
     (if IsDir inf3 then
        (case mboxFromHash fs (Name inf3) of
           Panic \<Rightarrow> (Some Panic, s)
         | Err err \<Rightarrow> (Some (Err err), s)
         | Ok mb \<Rightarrow>
             (case traced_val (Mb_getMessages (path mb)) (getMessages env mb)
                     (noted (RLock (RWMutex mb)) s) of
                (r, s1) \<Rightarrow>
                  let s2 = noted (RUnlock (RWMutex mb)) s1 in
                  (case r of
                     Inl err \<Rightarrow> (Some (Err err), s2)
                   | Inr msgs \<Rightarrow>
                       (case visit f msgs s2 of
                          (cont, s3) \<Rightarrow>
                            if \<not> cont then (Some (Ok ()), s3)
                            else visit_level3 env fs f infos3 s3))))
      else visit_level3 env fs f infos3 s)"

fun visit_level2 ::
  "'w env \<Rightarrow> Store \<Rightarrow> (fmessage list \<Rightarrow> 'w \<Rightarrow> bool \<times> 'w) \<Rightarrow> string \<Rightarrow> FileInfo list \<Rightarrow> 'w state \<Rightarrow>
   unit outcome option \<times> 'w state" where
  "visit_level2 env fs f l1 [] s = (None, s)"
| "visit_level2 env fs f l1 (inf2 # infos2) s =
     (if IsDir inf2 then
        (let l2 = Name inf2; d = filepath_Join [mailPath fs, l1, l2] in
         (case traced_val (ReadDir d) (ioutil_ReadDir env d) s of
            (Inl err, s1) \<Rightarrow> (Some (Err err), s1)
          | (Inr infos3, s1) \<Rightarrow>
              (case visit_level3 env fs f infos3 s1 of
                 (Some r, s2) \<Rightarrow> (Some r, s2)
               | (None, s2) \<Rightarrow> visit_level2 env fs f l1 infos2 s2)))
      else visit_level2 env fs f l1 infos2 s)"

fun visit_level1 ::
  "'w env \<Rightarrow> Store \<Rightarrow> (fmessage list \<Rightarrow> 'w \<Rightarrow> bool \<times> 'w) \<Rightarrow> FileInfo list \<Rightarrow> 'w state \<Rightarrow>
   unit outcome option \<times> 'w state" where
  "visit_level1 env fs f [] s = (None, s)"
| "visit_level1 env fs f (inf1 # infos1) s =
     (if IsDir inf1 then
        (let l1 = Name inf1; d = filepath_Join [mailPath fs, l1] in
         (case traced_val (ReadDir d) (ioutil_ReadDir env d) s of
            (Inl err, s1) \<Rightarrow> (Some (Err err), s1)
          | (Inr infos2, s1) \<Rightarrow>
              (case visit_level2 env fs f l1 infos2 s1 of
                 (Some r, s2) \<Rightarrow> (Some r, s2)
               | (None, s2) \<Rightarrow> visit_level1 env fs f infos1 s2)))
      else visit_level1 env fs f infos1 s)"

definition VisitMailboxes ::
  "'w env \<Rightarrow> Store \<Rightarrow> (fmessage list \<Rightarrow> 'w \<Rightarrow> bool \<times> 'w) \<Rightarrow> 'w state \<Rightarrow> unit outcome \<times> 'w state" where
  "VisitMailboxes env fs f s =
     (case traced_val (ReadDir (mailPath fs)) (ioutil_ReadDir env (mailPath fs)) s of
        (Inl err, s1) \<Rightarrow> (Err err, s1)
      | (Inr infos1, s1) \<Rightarrow>
          (case visit_level1 env fs f infos1 s1 of
             (Some r, s2) \<Rightarrow> (r, s2)
           | (None, s2) \<Rightarrow> (Ok (), s2)))"

subsection \<open>A disk, and the mailbox methods as the specification describes them\<close>

text \<open>
  One world to run the operations in: the files and directories by their paths, the clock,
  the number of values received from the sequence channel so far, and for every call the
  error it is to fail with, if any.
\<close>

datatype node = Dir | Raw string | Index "fmessage list"

record disk =
  nodes :: "(path \<times> node) list"
  clock :: Time
  received :: nat
  failing :: "call \<Rightarrow> error option"

definition put :: "path \<Rightarrow> node \<Rightarrow> disk \<Rightarrow> disk" where
  "put p n d = d\<lparr>nodes := (p, n) # filter (\<lambda>q. fst q \<noteq> p) (nodes d)\<rparr>"

definition del :: "path \<Rightarrow> disk \<Rightarrow> disk" where
  "del p d = d\<lparr>nodes := filter (\<lambda>q. fst q \<noteq> p) (nodes d)\<rparr>"

definition elems_of :: "path \<Rightarrow> string list" where
  "elems_of p = filter (\<lambda>c. c \<noteq> []) (split_on CHR ''/'' p)"

definition path_of :: "string list \<Rightarrow> path" where
  "path_of cs = CHR ''/'' # join_sep ''/'' cs"

definition parent :: "path \<Rightarrow> path" where
  "parent p = path_of (butlast (elems_of p))"

definition base :: "path \<Rightarrow> string" where
  "base p = (case elems_of p of [] \<Rightarrow> [] | c # cs \<Rightarrow> last (c # cs))"

text \<open>The path itself and the directories above it, the highest first.\<close>

definition ancestors :: "path \<Rightarrow> path list" where
  "ancestors p = map (\<lambda>k. path_of (take k (elems_of p))) [1..<Suc (length (elems_of p))]"

definition is_dir :: "disk \<Rightarrow> path \<Rightarrow> bool" where
  "is_dir d p \<longleftrightarrow> p = ''/'' \<or> map_of (nodes d) p = Some Dir"

definition children :: "disk \<Rightarrow> path \<Rightarrow> (path \<times> node) list" where
  "children d p = filter (\<lambda>q. fst q \<noteq> ''/'' \<and> parent (fst q) = p) (nodes d)"

definition failing_or :: "call \<Rightarrow> disk \<Rightarrow> error option \<times> disk \<Rightarrow> error option \<times> disk" where
  "failing_or c d k = (case failing d c of Some e \<Rightarrow> (Some e, d) | None \<Rightarrow> k)"

definition is_file :: "disk \<Rightarrow> path \<Rightarrow> bool" where
  "is_file d p =
     (case map_of (nodes d) p of Some (Raw x) \<Rightarrow> True | Some (Index l) \<Rightarrow> True | _ \<Rightarrow> False)"

definition mkdir_all :: "path \<Rightarrow> disk \<Rightarrow> error option \<times> disk" where
  "mkdir_all p d =
     (if list_ex (is_file d) (ancestors p)
      then (Some (Error ''not a directory''), d)
      else (None, fold (\<lambda>a d'. if is_dir d' a then d' else put a Dir d') (ancestors p) d))"

definition disk_Stat :: "path \<Rightarrow> disk \<Rightarrow> error option \<times> disk" where
  "disk_Stat p d =
     failing_or (Stat p) d
       (if p = ''/'' \<or> map_of (nodes d) p \<noteq> None then (None, d)
        else (Some (Error ''no such file or directory''), d))"

definition disk_MkdirAll :: "path \<Rightarrow> disk \<Rightarrow> error option \<times> disk" where
  "disk_MkdirAll p d = failing_or (MkdirAll p) d (mkdir_all p d)"

definition disk_Create :: "path \<Rightarrow> disk \<Rightarrow> error option \<times> disk" where
  "disk_Create p d =
     failing_or (Create p) d
       (if \<not> is_dir d (parent p) then (Some (Error ''no such file or directory''), d)
        else if is_dir d p then (Some (Error ''is a directory''), d)
        else (None, put p (Raw []) d))"

text \<open>
  The bytes count as written when \<^verbatim>\<open>io.Copy\<close> takes them: the buffer of the writer is
  not kept apart from the file. A copy returns no error only when the stream ended.
\<close>

definition disk_Copy :: "path \<Rightarrow> reader \<Rightarrow> disk \<Rightarrow> (error + int) \<times> disk" where
  "disk_Copy p r d =
     (case failing d (Copy p) of
        Some e \<Rightarrow> (Inl e, d)
      | None \<Rightarrow>
          (case read_error r of
             Some e \<Rightarrow> (Inl e, put p (Raw (content r)) d)
           | None \<Rightarrow> (Inr (int (length (content r))), put p (Raw (content r)) d)))"

definition disk_Flush :: "path \<Rightarrow> disk \<Rightarrow> error option \<times> disk" where
  "disk_Flush p d = failing_or (Flush p) d (None, d)"

definition disk_Close :: "path \<Rightarrow> disk \<Rightarrow> error option \<times> disk" where
  "disk_Close p d = failing_or (CloseFile p) d (None, d)"

definition disk_Remove :: "path \<Rightarrow> disk \<Rightarrow> error option \<times> disk" where
  "disk_Remove p d =
     failing_or (Remove p) d
       (if map_of (nodes d) p = None then (Some (Error ''no such file or directory''), d)
        else if children d p \<noteq> [] then (Some (Error ''directory not empty''), d)
        else (None, del p d))"

definition disk_reader_Close :: "reader \<Rightarrow> disk \<Rightarrow> error option \<times> disk" where
  "disk_reader_Close r d = failing_or CloseSource d (None, d)"

text \<open>\<^verbatim>\<open>ioutil.ReadDir\<close> lists a directory sorted by file name.\<close>

definition disk_ReadDir :: "path \<Rightarrow> disk \<Rightarrow> (error + FileInfo list) \<times> disk" where
  "disk_ReadDir p d =
     (case failing d (ReadDir p) of
        Some e \<Rightarrow> (Inl e, d)
      | None \<Rightarrow>
          if is_dir d p then
            (Inr (sort_key Name (map (\<lambda>q. \<lparr>Name = base (fst q), IsDir = (snd q = Dir)\<rparr>) (children d p))), d)
          else (Inl (Error ''not a directory''), d))"

text \<open>
  Modelled from the spec: loading the index of a mailbox, which the methods of \<^verbatim>\<open>mbox\<close>
  do in a file that is not part of the sources. ``If an index file exists at the mailbox's
  path, deserialize it into the ordered record list; if absent, the mailbox is considered
  to have zero records.''
\<close>

definition spec_load :: "mbox \<Rightarrow> disk \<Rightarrow> fmessage list" where
  "spec_load mb d = (case map_of (nodes d) (indexPath mb) of Some (Index l) \<Rightarrow> l | _ \<Rightarrow> [])"

text \<open>
  Modelled from the spec: \<^verbatim>\<open>mb.newMessage()\<close>. The in-memory list is rebuilt from the
  disk, and the new record gets ``an ID via the ID-generation protocol from the current
  timestamp''.
\<close>

definition spec_newMessage :: "mbox \<Rightarrow> disk \<Rightarrow> ((error + fmessage) \<times> mbox) \<times> disk" where
  "spec_newMessage mb d =
     (case failing d Mb_newMessage of
        Some e \<Rightarrow> ((Inl e, mb), d)
      | None \<Rightarrow>
          ((Inr \<lparr>Fid = generateID (clock d) (received d), Fdate = clock d, Ffrom = [], Fto = [],
                 Fsize = 0, Fsubject = []\<rparr>,
            mb\<lparr>messages := spec_load mb d\<rparr>),
           d\<lparr>received := Suc (received d)\<rparr>))"

text \<open>
  Modelled from the spec: \<^verbatim>\<open>mb.createDir()\<close>, ``create the full shard path (all three
  levels) if missing, idempotently''.
\<close>

definition spec_createDir :: "mbox \<Rightarrow> disk \<Rightarrow> error option \<times> disk" where
  "spec_createDir mb d = failing_or (Mb_createDir (path mb)) d (mkdir_all (path mb) d)"

text \<open>
  Modelled from the spec: \<^verbatim>\<open>mb.writeIndex()\<close>, ``serialize the full in-memory record
  list and overwrite the index file''. A write that fails leaves the file as it was.
\<close>

definition spec_writeIndex :: "mbox \<Rightarrow> disk \<Rightarrow> error option \<times> disk" where
  "spec_writeIndex mb d =
     failing_or (Mb_writeIndex (indexPath mb) (messages mb)) d
       (None, put (indexPath mb) (Index (messages mb)) d)"

text \<open>
  Modelled from the spec: \<^verbatim>\<open>mb.getMessages()\<close>, ``returns the full ordered list
  (insertion order)''.
\<close>

definition spec_getMessages :: "mbox \<Rightarrow> disk \<Rightarrow> (error + fmessage list) \<times> disk" where
  "spec_getMessages mb d =
     (case failing d (Mb_getMessages (path mb)) of
        Some e \<Rightarrow> (Inl e, d)
      | None \<Rightarrow> (Inr (spec_load mb d), d))"

text \<open>
  Modelled from the spec: \<^verbatim>\<open>mb.getMessage(id)\<close>, ``returns the record matching the id or
  fails with NotFoundError''.
\<close>

definition spec_getMessage :: "mbox \<Rightarrow> string \<Rightarrow> disk \<Rightarrow> (error + fmessage) \<times> disk" where
  "spec_getMessage mb ident d =
     (case failing d (Mb_getMessage (path mb) ident) of
        Some e \<Rightarrow> (Inl e, d)
      | None \<Rightarrow>
          (case find (\<lambda>fm. Fid fm = ident) (spec_load mb d) of
             None \<Rightarrow> (Inl (Error ''not found''), d)
           | Some fm \<Rightarrow> (Inr fm, d)))"

text \<open>
  Modelled from the spec: \<^verbatim>\<open>mb.removeMessage(id)\<close>, ``removes the matching record from
  the in-memory list and its raw file, rewrites the index. Fails with NotFoundError if no
  record matches.''
\<close>

definition spec_removeMessage :: "mbox \<Rightarrow> string \<Rightarrow> disk \<Rightarrow> error option \<times> disk" where
  "spec_removeMessage mb ident d =
     failing_or (Mb_removeMessage (path mb) ident) d
       (case find (\<lambda>fm. Fid fm = ident) (spec_load mb d) of
          None \<Rightarrow> (Some (Error ''not found''), d)
        | Some fm \<Rightarrow>
            (None, put (indexPath mb) (Index (filter (\<lambda>x. Fid x \<noteq> ident) (spec_load mb d)))
                     (del (rawPath mb fm) d)))"

text \<open>
  Modelled from the spec: \<^verbatim>\<open>mb.purge()\<close>, ``deletes all raw files and the index file,
  empties the in-memory list (mailbox directory may remain, emptied of content)''.
\<close>

definition spec_purge :: "mbox \<Rightarrow> disk \<Rightarrow> error option \<times> disk" where
  "spec_purge mb d =
     failing_or (Mb_purge (path mb)) d
       (None, del (indexPath mb) (fold (\<lambda>fm. del (rawPath mb fm)) (spec_load mb d) d))"

text \<open>The environment over a disk, for a name policy and a hash.\<close>

definition disk_env :: "(string \<Rightarrow> error + string) \<Rightarrow> (string \<Rightarrow> string) \<Rightarrow> disk env" where
  "disk_env parse hash =
     \<lparr>ParseMailboxName = parse, HashMailboxName = hash,
      os_Stat = disk_Stat, os_MkdirAll = disk_MkdirAll, os_Create = disk_Create,
      io_Copy = disk_Copy, bufio_Flush = disk_Flush, file_Close = disk_Close,
      os_Remove = disk_Remove, reader_Close = disk_reader_Close,
      ioutil_ReadDir = disk_ReadDir,
      newMessage = spec_newMessage, createDir = spec_createDir, writeIndex = spec_writeIndex,
      getMessage = spec_getMessage, getMessages = spec_getMessages,
      removeMessage = spec_removeMessage, purge = spec_purge\<rparr>"


subsection \<open>Reading traces\<close>

text \<open>The visitor answered ``stop''.\<close>

definition is_stop :: "event \<Rightarrow> bool" where
  "is_stop ev = (case fst ev of Visit msgs cont \<Rightarrow> \<not> cont | _ \<Rightarrow> False)"

definition is_visit :: "event \<Rightarrow> bool" where
  "is_visit ev = (case fst ev of Visit msgs cont \<Rightarrow> True | _ \<Rightarrow> False)"

text \<open>
  The steps of \<^verbatim>\<open>AddMessage\<close> that come after the raw file \<open>p\<close> was created and can
  fail: the copy, the flush, closing the file, and writing the index.
\<close>

definition primary_step :: "path \<Rightarrow> call \<Rightarrow> bool" where
  "primary_step p c =
     (case c of Copy q \<Rightarrow> q = p | Flush q \<Rightarrow> q = p | CloseFile q \<Rightarrow> q = p
      | Mb_writeIndex q l \<Rightarrow> True | _ \<Rightarrow> False)"

text \<open>
  What a loop of the traversal added to the trace, against how it ended: when it made
  \<^verbatim>\<open>VisitMailboxes\<close> return \<^verbatim>\<open>nil\<close> from inside, a ``stop'' is the last event and the
  only one; otherwise there is none.
\<close>

definition halts_at_stop :: "event list \<Rightarrow> unit outcome option \<Rightarrow> bool" where
  "halts_at_stop new ro \<longleftrightarrow>
     (if ro = Some (Ok ()) then
        new \<noteq> [] \<and> is_stop (last new) \<and> list_all (\<lambda>ev. \<not> is_stop ev) (butlast new)
      else list_all (\<lambda>ev. \<not> is_stop ev) new)"

text \<open>The names of the directories in what \<^verbatim>\<open>ioutil.ReadDir\<close> returned.\<close>

definition dir_names :: "(error + FileInfo list) \<times> 'w \<Rightarrow> string list" where
  "dir_names r = (case fst r of Inl e \<Rightarrow> [] | Inr infos \<Rightarrow> map Name (filter IsDir infos))"

text \<open>
  The mail tree as the world \<open>w\<close> shows it: every directory at its third level has a
  name of at least 6 bytes.
\<close>

definition third_level_names_ok :: "'w env \<Rightarrow> Store \<Rightarrow> 'w \<Rightarrow> bool" where
  "third_level_names_ok env fs w \<longleftrightarrow>
     (\<forall>l1 \<in> set (dir_names (ioutil_ReadDir env (mailPath fs) w)).
      \<forall>l2 \<in> set (dir_names (ioutil_ReadDir env (filepath_Join [mailPath fs, l1]) w)).
      \<forall>l3 \<in> set (dir_names (ioutil_ReadDir env (filepath_Join [mailPath fs, l1, l2]) w)).
        6 \<le> length l3)"

text \<open>
  The world \<open>w\<close> shows the same directories as \<open>w0\<close> at the three levels that
  \<^verbatim>\<open>VisitMailboxes\<close> lists: in the mail directory, in the directories under it, and in
  those under them.
\<close>

definition same_dirs :: "'w env \<Rightarrow> Store \<Rightarrow> 'w \<Rightarrow> 'w \<Rightarrow> bool" where
  "same_dirs env fs w0 w \<longleftrightarrow>
     dir_names (ioutil_ReadDir env (mailPath fs) w) =
       dir_names (ioutil_ReadDir env (mailPath fs) w0) \<and>
     (\<forall>l1. dir_names (ioutil_ReadDir env (filepath_Join [mailPath fs, l1]) w) =
            dir_names (ioutil_ReadDir env (filepath_Join [mailPath fs, l1]) w0)) \<and>
     (\<forall>l1 l2. dir_names (ioutil_ReadDir env (filepath_Join [mailPath fs, l1, l2]) w) =
               dir_names (ioutil_ReadDir env (filepath_Join [mailPath fs, l1, l2]) w0))"

text \<open>
  Nothing that a traversal runs changes the directories of the mail tree of \<open>w0\<close>:
  listing a directory, reading the messages of a mailbox and the visitor \<open>f\<close>, started in a
  world that shows the directories of \<open>w0\<close>, end in such a world. (The visitor may still
  remove or add messages.)
\<close>

definition tree_kept :: "'w env \<Rightarrow> Store \<Rightarrow> (fmessage list \<Rightarrow> 'w \<Rightarrow> bool \<times> 'w) \<Rightarrow> 'w \<Rightarrow> bool" where
  "tree_kept env fs f w0 \<longleftrightarrow>
     (\<forall>w. same_dirs env fs w0 w \<longrightarrow>
        (\<forall>p. same_dirs env fs w0 (snd (ioutil_ReadDir env p w))) \<and>
        (\<forall>mb. same_dirs env fs w0 (snd (getMessages env mb w))) \<and>
        (\<forall>msgs. same_dirs env fs w0 (snd (f msgs w))))"

subsection \<open>The message cap\<close>

text \<open>The same mailbox descriptor, of a store with the message cap \<open>c\<close>.\<close>

definition with_cap :: "int \<Rightarrow> mbox \<Rightarrow> mbox" where
  "with_cap c mb = mb\<lparr>store := (store mb)\<lparr>messageCap := c\<rparr>\<rparr>"


subsection \<open>Sample inputs\<close>

definition sample_time :: Time where
  "sample_time = \<lparr>Year = 2023, Month = 1, Day = 1, Hour = 0, Minute = 0, Second = 0\<rparr>"

text \<open>A stand-in for the hash of a mailbox name: ten hexadecimal digits.\<close>

definition sample_hash :: "string \<Rightarrow> string" where
  "sample_hash n =
     (if n = ''bob'' then ''48181acd22''
      else if n = ''alice'' then ''522b276a35''
      else if n = ''carol'' then ''4818f00d00''
      else ''0000000000'')"

definition sample_env :: "disk env" where
  "sample_env = disk_env Inr sample_hash"

definition sample_store :: Store where
  "sample_store = \<lparr>Store_path = ''/d'', mailPath = ''/d/mail'', messageCap = 0\<rparr>"

definition sample_message :: message where
  "sample_message =
     \<lparr>Mailbox = ''bob'', Source = Inr \<lparr>content = ''hello'', read_error = None\<rparr>,
      Date = sample_time, From = ''a@example.com'', To = [''bob@example.com''],
      Subject = ''hi''\<rparr>"

text \<open>An empty disk on which no call fails, and disks on which some calls fail.\<close>

definition sample_disk :: disk where
  "sample_disk = \<lparr>nodes = [], clock = sample_time, received = 0, failing = (\<lambda>c. None)\<rparr>"

definition flush_fails :: "call \<Rightarrow> error option" where
  "flush_fails c =
     (case c of Flush p \<Rightarrow> Some (Error ''disk full'') | Remove p \<Rightarrow> Some (Error ''busy'')
      | _ \<Rightarrow> None)"

definition copy_fails :: "call \<Rightarrow> error option" where
  "copy_fails c = (case c of Copy p \<Rightarrow> Some (Error ''disk full'') | _ \<Rightarrow> None)"

definition index_fails :: "call \<Rightarrow> error option" where
  "index_fails c = (case c of Mb_writeIndex p l \<Rightarrow> Some (Error ''disk full'') | _ \<Rightarrow> None)"

definition mkdir_fails :: "call \<Rightarrow> error option" where
  "mkdir_fails c = (case c of MkdirAll p \<Rightarrow> Some (Error ''permission denied'') | _ \<Rightarrow> None)"

definition sample_record :: "string \<Rightarrow> fmessage" where
  "sample_record i =
     \<lparr>Fid = i, Fdate = sample_time, Ffrom = ''a@example.com'', Fto = [''bob@example.com''],
      Fsize = 5, Fsubject = ''hi''\<rparr>"

text \<open>A disk that holds three mailboxes, two of them in the same first-level directory.\<close>

definition three_mailboxes :: disk where
  "three_mailboxes =
     \<lparr>nodes =
        [(''/d'', Dir), (''/d/mail'', Dir),
         (''/d/mail/481'', Dir),
         (''/d/mail/481/48181a'', Dir),
         (''/d/mail/481/48181a/48181acd22'', Dir),
         (''/d/mail/481/48181a/48181acd22/index.gob'', Index [sample_record ''20230101T000000-0000'']),
         (''/d/mail/481/48181a/48181acd22/20230101T000000-0000.raw'', Raw ''hello''),
         (''/d/mail/481/4818f0'', Dir),
         (''/d/mail/481/4818f0/4818f00d00'', Dir),
         (''/d/mail/481/4818f0/4818f00d00/index.gob'', Index [sample_record ''20230101T000000-0001'']),
         (''/d/mail/481/4818f0/4818f00d00/20230101T000000-0001.raw'', Raw ''hello''),
         (''/d/mail/522'', Dir),
         (''/d/mail/522/522b27'', Dir),
         (''/d/mail/522/522b27/522b276a35'', Dir),
         (''/d/mail/522/522b27/522b276a35/index.gob'', Index [sample_record ''20230101T000000-0002'']),
         (''/d/mail/522/522b27/522b276a35/20230101T000000-0002.raw'', Raw ''hello'')],
      clock = sample_time, received = 3, failing = (\<lambda>c. None)\<rparr>"

text \<open>The visitor that stops at once, and the one that never stops.\<close>

definition stop_at_once :: "fmessage list \<Rightarrow> 'w \<Rightarrow> bool \<times> 'w" where
  "stop_at_once msgs w = (False, w)"

definition go_on :: "fmessage list \<Rightarrow> 'w \<Rightarrow> bool \<times> 'w" where
  "go_on msgs w = (True, w)"

definition dir_entry :: "string \<Rightarrow> FileInfo" where
  "dir_entry n = \<lparr>Name = n, IsDir = True\<rparr>"

text \<open>
  The disk of the three mailboxes with one more directory, \<^verbatim>\<open>tmp\<close>, beside the mailbox
  \<^verbatim>\<open>48181acd22\<close>: a sorted listing has it after the mailbox.
\<close>

definition short_name_disk :: disk where
  "short_name_disk =
     three_mailboxes\<lparr>nodes := (''/d/mail/481/48181a/tmp'', Dir) # nodes three_mailboxes\<rparr>"


section \<open>The sequence generator and the message IDs\<close>

lemma loop_snth:
  "0 \<le> i \<Longrightarrow> i < 10000 \<Longrightarrow> countGenerator_loop i !! n = (i + int n) mod 10000"
proof (induction n arbitrary: i)
  case 0
  then show ?case by simp
next
  case (Suc n)
  have s: "(i + 1) smod 10000 = (i + 1) mod 10000"
    using Suc.prems by (simp add: smod_mod_positive)
  have "countGenerator_loop i !! Suc n = countGenerator_loop ((i + 1) mod 10000) !! n"
    by (simp add: s)
  also have "\<dots> = ((i + 1) mod 10000 + int n) mod 10000"
    by (rule Suc.IH) simp_all
  also have "\<dots> = (i + int (Suc n)) mod 10000"
    by (simp add: mod_add_left_eq add.assoc)
  finally show ?case .
qed

lemma countGenerator_snth: "countGenerator !! n = int (n mod 10000)"
  by (simp add: countGenerator_def loop_snth zmod_int)

lemma window: "stake m (sdrop k countGenerator) = map (\<lambda>j. int ((k + j) mod 10000)) [0..<m]"
  by (rule nth_equalityI) (simp_all add: sdrop_snth countGenerator_snth)

lemma inj_window: "inj_on (\<lambda>j. int ((k + j) mod 10000)) {0..<10000}"
proof (rule inj_onI)
  fix x y :: nat
  assume x: "x \<in> {0..<10000}" and y: "y \<in> {0..<10000}"
    and e: "int ((k + x) mod 10000) = int ((k + y) mod 10000)"
  from e have m: "(k + x) mod 10000 = (k + y) mod 10000" by simp
  show "x = y"
  proof (cases "x \<le> y")
    case True
    then have "k + x \<le> k + y" by simp
    from mod_eq_dvd_iff_nat [OF this, of 10000] m
    have "10000 dvd y - x" by simp
    moreover have "y - x < 10000" using y by simp
    ultimately have "y - x = 0" by (meson dvd_imp_le not_less zero_less_iff_neq_zero)
    with True show ?thesis by simp
  next
    case False
    then have "k + y \<le> k + x" by simp
    from mod_eq_dvd_iff_nat [OF this, of 10000] m
    have "10000 dvd x - y" by simp
    moreover have "x - y < 10000" using x by simp
    ultimately have "x - y = 0" by (meson dvd_imp_le not_less zero_less_iff_neq_zero)
    with False show ?thesis by simp
  qed
qed

lemma window_distinct: "distinct (stake 10000 (sdrop k countGenerator))"
  unfolding window using inj_window by (simp add: distinct_map)

lemma window_set: "set (stake 10000 (sdrop k countGenerator)) = {0..9999}"
proof -
  let ?f = "\<lambda>j. int ((k + j) mod 10000)"
  have sub: "?f ` {0..<10000} \<subseteq> {0..9999}" by auto
  have "card (?f ` {0..<10000}) = 10000"
    using inj_window by (simp add: card_image)
  moreover have "card {0..9999::int} = 10000" by simp
  ultimately have "?f ` {0..<10000} = {0..9999}"
    using sub by (metis card_subset_eq finite_atLeastAtMost_int)
  then show ?thesis unfolding window by simp
qed

text \<open>
  C3. The generator sends 0, 1, ..., 9999, 0, 1, ... for ever: the \<open>n\<close>-th value that
  goes through the channel (counting from 0) is \<open>n mod 10000\<close>, and any 10000 pulls in a
  row, from the \<open>k\<close>-th on, give the values \<open>k mod 10000\<close>, \<open>(k + 1) mod 10000\<close>, ... in
  this cyclic order: 10000 different values, which are all of 0..9999.
\<close>

theorem countGenerator_cyclic:
  "countGenerator !! n = int (n mod 10000) \<and>
   stake 10000 (sdrop k countGenerator) = map (\<lambda>j. int ((k + j) mod 10000)) [0..<10000] \<and>
   distinct (stake 10000 (sdrop k countGenerator)) \<and>
   set (stake 10000 (sdrop k countGenerator)) = {0..9999}"
  using countGenerator_snth [of n] window [of 10000 k] window_distinct [of k] window_set [of k]
  by blast


lemma replicate_numeral: "replicate (numeral k) x = x # replicate (pred_numeral k) x"
  by (simp add: numeral_eq_Suc)












lemma err_of_simps [simp]: "err_of (Inl e) = Some e" "err_of (Inr v) = None"
  by (simp_all add: err_of_def)





lemma sample_mbox_bob:
  "mbox sample_env sample_store ''bob'' =
     Ok \<lparr>RWMutex = ''48181acd22'', store = sample_store, name = ''bob'', dirName = ''48181acd22'',
         path = ''/d/mail/481/48181a/48181acd22'',
         indexPath = ''/d/mail/481/48181a/48181acd22/index.gob'', messages = []\<rparr>"
  by (simp add: mbox_def sample_env_def disk_env_def sample_hash_def go_slice_def sample_store_def
      filepath_Join_def filepath_Clean_def Let_def indexFileName_def)

lemma sample_id: "generateID sample_time 0 = ''20230101T000000-0000''"
  unfolding generateID_def countGenerator_snth
  by (simp add: generatePrefix_def appendInt_def Sprintf_04d_def zero_pad_def digits.simps
      digit_char_def sample_time_def replicate_numeral)

lemmas run_simps =
  AddMessage_locked_def traced_def traced_val_def traced_new_def noted_def Let_def
  sample_env_def disk_env_def sample_message_def spec_newMessage_def
  spec_createDir_def spec_writeIndex_def spec_load_def failing_or_def mkdir_all_def
  disk_Create_def disk_Copy_def disk_Flush_def disk_Close_def disk_Remove_def disk_reader_Close_def
  rawPath_def filepath_Join_def filepath_Clean_def ancestors_def elems_of_def
  path_of_def parent_def is_dir_def is_file_def put_def del_def children_def



section \<open>The directory of a mailbox\<close>

lemma split_on_not_Nil [simp]: "split_on c x \<noteq> []"
  by (induction x) (auto split: list.splits)

lemma join_split: "join_sep [c] (split_on c x) = x"
proof (induction x)
  case Nil
  then show ?case by simp
next
  case (Cons a x)
  obtain y ys where s: "split_on c x = y # ys" by (cases "split_on c x") auto
  with Cons show ?case by (cases ys) auto
qed

lemma split_on_none: "c \<notin> set x \<Longrightarrow> split_on c x = [x]"
  by (induction x) auto

lemma split_on_append: "c \<notin> set x \<Longrightarrow> split_on c (x @ c # rest) = x # split_on c rest"
  by (induction x) auto

lemma split_join:
  "cs \<noteq> [] \<Longrightarrow> (\<And>x. x \<in> set cs \<Longrightarrow> c \<notin> set x) \<Longrightarrow> split_on c (join_sep [c] cs) = cs"
proof (induction "[c]" cs rule: join_sep.induct)
  case 1
  then show ?case by simp
next
  case (2 x)
  then show ?case by (simp add: split_on_none)
next
  case (3 x y ys)
  then show ?case by (simp add: split_on_append)
qed

lemma clean_elems_plain: "list_all plain cs \<Longrightarrow> clean_elems r acc cs = rev acc @ cs"
  by (induction cs arbitrary: acc) (auto simp: plain_def)

lemma join_sep_append:
  "xs \<noteq> [] \<Longrightarrow> ys \<noteq> [] \<Longrightarrow> join_sep sep (xs @ ys) = join_sep sep xs @ sep @ join_sep sep ys"
proof (induction sep xs rule: join_sep.induct)
  case (1 sep)
  then show ?case by simp
next
  case (2 sep x)
  then show ?case by (cases ys) auto
next
  case (3 sep x y ys)
  then show ?case by simp
qed

lemma plain_no_slash: "list_all plain cs \<Longrightarrow> x \<in> set cs \<Longrightarrow> CHR ''/'' \<notin> set x"
  by (auto simp: list_all_iff plain_def)

lemma Clean_path_of:
  assumes "cs \<noteq> []" "list_all plain cs"
  shows "filepath_Clean (CHR ''/'' # join_sep ''/'' cs) = CHR ''/'' # join_sep ''/'' cs"
proof -
  have "split_on CHR ''/'' (join_sep ''/'' cs) = cs"
    using assms by (intro split_join) (auto dest: plain_no_slash)
  then show ?thesis
    using assms(2) by (simp add: filepath_Clean_def clean_elems_plain)
qed

lemma clean_absolute_elems:
  assumes "clean_absolute p"
  obtains cs where "cs \<noteq> []" "list_all plain cs" "p = CHR ''/'' # join_sep ''/'' cs"
proof
  show "split_on CHR ''/'' (tl p) \<noteq> []" by simp
  show "list_all plain (split_on CHR ''/'' (tl p))" using assms by (simp add: clean_absolute_def)
  show "p = CHR ''/'' # join_sep ''/'' (split_on CHR ''/'' (tl p))"
    using assms join_split [of "CHR ''/''" "tl p"] by (cases p) (auto simp: clean_absolute_def)
qed

lemma Join_under_clean:
  assumes p: "clean_absolute p" and xs: "list_all plain xs" "xs \<noteq> []"
  shows "filepath_Join (p # xs) = p @ ''/'' @ join_sep ''/'' xs"
    and "clean_absolute (p @ ''/'' @ join_sep ''/'' xs)"
proof -
  from p obtain cs where cs: "cs \<noteq> []" "list_all plain cs" and pe: "p = CHR ''/'' # join_sep ''/'' cs"
    by (rule clean_absolute_elems)
  have j: "join_sep ''/'' (p # xs) = p @ ''/'' @ join_sep ''/'' xs"
    using xs(2) by (cases xs) auto
  have e: "p @ ''/'' @ join_sep ''/'' xs = CHR ''/'' # join_sep ''/'' (cs @ xs)"
    using cs(1) xs(2) by (simp add: join_sep_append pe)
  have "filepath_Join (p # xs) = filepath_Clean (join_sep ''/'' (p # xs))"
    using pe by (simp add: filepath_Join_def)
  also have "\<dots> = filepath_Clean (CHR ''/'' # join_sep ''/'' (cs @ xs))"
    by (simp only: j e)
  also have "\<dots> = CHR ''/'' # join_sep ''/'' (cs @ xs)"
    using cs xs by (intro Clean_path_of) simp_all
  finally show "filepath_Join (p # xs) = p @ ''/'' @ join_sep ''/'' xs" by (simp only: e)
  have "split_on CHR ''/'' (join_sep ''/'' (cs @ xs)) = cs @ xs"
    using cs xs by (intro split_join) (auto dest: plain_no_slash)
  then show "clean_absolute (p @ ''/'' @ join_sep ''/'' xs)"
    using cs(2) xs(1) by (simp only: e) (simp add: clean_absolute_def)
qed

lemma plain_take:
  assumes "CHR ''/'' \<notin> set h" "n \<le> length h" "3 \<le> n"
  shows "plain (take n h)"
proof -
  have "3 \<le> length (take n h)" using assms(2,3) by simp
  then have "take n h \<noteq> []" "take n h \<noteq> ''.''" "take n h \<noteq> ''..''"
    using assms(3) by (auto simp del: length_take)
  moreover have "CHR ''/'' \<notin> set (take n h)" using assms(1) by (auto dest: in_set_takeD)
  ultimately show ?thesis by (simp add: plain_def)
qed

lemma go_slice_prefix: "n \<le> length h \<Longrightarrow> go_slice h 0 n = Some (take n h)"
  by (simp add: go_slice_def)

text \<open>
  C4. For a mailbox name that the policy accepts and whose hash has its 6 characters or
  more, \<open>mbox\<close> gives the directory \<^verbatim>\<open>filepath.Join(mailPath, hash[0:3], hash[0:6], hash)\<close>
  and the index file \<^verbatim>\<open>filepath.Join(path, "index.gob")\<close>, and \<open>mboxFromHash\<close> on
  the hash gives the same two paths. When the mail root is an absolute clean path and the
  hash has no slash, the directory is, character by character,
  \<^verbatim>\<open>mailPath/shard1/shard2/hash\<close> and the index file is the directory, a slash, and
  the index file name.
\<close>

theorem mbox_directory:
  assumes "ParseMailboxName env mailbox = Inr nm"
    and "hash = HashMailboxName env nm"
    and "6 \<le> length hash"
  shows "\<exists>mb mb'. mbox env fs mailbox = Ok mb \<and> mboxFromHash fs hash = Ok mb' \<and>
           path mb = filepath_Join [mailPath fs, take 3 hash, take 6 hash, hash] \<and>
           indexPath mb = filepath_Join [path mb, indexFileName] \<and>
           path mb' = path mb \<and> indexPath mb' = indexPath mb \<and>
           dirName mb = hash \<and> dirName mb' = hash \<and>
           (clean_absolute (mailPath fs) \<and> CHR ''/'' \<notin> set hash \<longrightarrow>
              path mb = mailPath fs @ ''/'' @ take 3 hash @ ''/'' @ take 6 hash @ ''/'' @ hash \<and>
              indexPath mb = path mb @ ''/'' @ indexFileName)"
proof -
  let ?p = "filepath_Join [mailPath fs, take 3 hash, take 6 hash, hash]"
  have s: "go_slice hash 0 3 = Some (take 3 hash)" "go_slice hash 0 6 = Some (take 6 hash)"
    using assms(3) by (simp_all add: go_slice_prefix)
  have m: "mbox env fs mailbox =
      Ok \<lparr>RWMutex = hash, store = fs, name = nm, dirName = hash, path = ?p,
          indexPath = filepath_Join [?p, indexFileName], messages = []\<rparr>"
    using assms(1,2) s by (simp add: mbox_def Let_def)
  have h: "mboxFromHash fs hash =
      Ok \<lparr>RWMutex = hash, store = fs, name = [], dirName = hash, path = ?p,
          indexPath = filepath_Join [?p, indexFileName], messages = []\<rparr>"
    using s by (simp add: mboxFromHash_def Let_def)
  have lit: "?p = mailPath fs @ ''/'' @ take 3 hash @ ''/'' @ take 6 hash @ ''/'' @ hash \<and>
      filepath_Join [?p, indexFileName] = ?p @ ''/'' @ indexFileName"
    if c: "clean_absolute (mailPath fs)" and n: "CHR ''/'' \<notin> set hash"
  proof -
    have pl: "list_all plain [take 3 hash, take 6 hash, hash]"
      using plain_take [OF n, of 3] plain_take [OF n, of 6] plain_take [OF n, of "length hash"] assms(3)
      by simp
    have e: "?p = mailPath fs @ ''/'' @ join_sep ''/'' [take 3 hash, take 6 hash, hash]"
      and ca: "clean_absolute (mailPath fs @ ''/'' @ join_sep ''/'' [take 3 hash, take 6 hash, hash])"
      using Join_under_clean [OF c pl] by simp_all
    have pi: "list_all plain [indexFileName]" by (simp add: plain_def indexFileName_def)
    have "filepath_Join [?p, indexFileName] = ?p @ ''/'' @ join_sep ''/'' [indexFileName]"
      using Join_under_clean(1) [OF ca pi] by (simp only: e) simp
    with e show ?thesis by simp
  qed
  show ?thesis using m h lit by auto
qed

theorem mbox_directory_witness:
  "ParseMailboxName sample_env ''bob'' = Inr ''bob'' \<and>
   6 \<le> length (HashMailboxName sample_env ''bob'') \<and>
   clean_absolute (mailPath sample_store) \<and> CHR ''/'' \<notin> set (HashMailboxName sample_env ''bob'') \<and>
   (\<exists>mb mb'. mbox sample_env sample_store ''bob'' = Ok mb \<and>
      mboxFromHash sample_store ''48181acd22'' = Ok mb' \<and>
      path mb = ''/d/mail/481/48181a/48181acd22'' \<and>
      indexPath mb = ''/d/mail/481/48181a/48181acd22/index.gob'' \<and>
      path mb' = path mb \<and> indexPath mb' = indexPath mb)"
proof -
  have a: "ParseMailboxName sample_env ''bob'' = Inr ''bob''"
    and b: "''48181acd22'' = HashMailboxName sample_env ''bob''"
    and c: "6 \<le> length ''48181acd22''"
    by (simp_all add: sample_env_def disk_env_def sample_hash_def)
  have d: "clean_absolute (mailPath sample_store)"
    by (simp add: clean_absolute_def sample_store_def plain_def)
  from mbox_directory [OF a b c, of sample_store] obtain mb mb' where
    r: "mbox sample_env sample_store ''bob'' = Ok mb"
      "mboxFromHash sample_store ''48181acd22'' = Ok mb'"
      "path mb = filepath_Join [mailPath sample_store, take 3 ''48181acd22'', take 6 ''48181acd22'', ''48181acd22'']"
      "indexPath mb = filepath_Join [path mb, indexFileName]"
      "path mb' = path mb" "indexPath mb' = indexPath mb"
    by blast
  have p: "path mb = ''/d/mail/481/48181a/48181acd22''"
    using r(3) by (simp add: sample_store_def filepath_Join_def filepath_Clean_def Let_def)
  have i: "indexPath mb = ''/d/mail/481/48181a/48181acd22/index.gob''"
    using r(4) by (simp add: p indexFileName_def filepath_Join_def filepath_Clean_def Let_def)
  have e: "\<exists>mb mb'. mbox sample_env sample_store ''bob'' = Ok mb \<and>
      mboxFromHash sample_store ''48181acd22'' = Ok mb' \<and>
      path mb = ''/d/mail/481/48181a/48181acd22'' \<and>
      indexPath mb = ''/d/mail/481/48181a/48181acd22/index.gob'' \<and>
      path mb' = path mb \<and> indexPath mb' = indexPath mb"
    using r(1,2,5,6) p i by blast
  have n: "CHR ''/'' \<notin> set (HashMailboxName sample_env ''bob'')"
    and l: "6 \<le> length (HashMailboxName sample_env ''bob'')"
    by (simp_all add: b [symmetric])
  from a l d n e show ?thesis by blast
qed

section \<open>Visiting the mailboxes\<close>

lemma halts_prepend:
  assumes "list_all (\<lambda>ev. \<not> is_stop ev) pre" "halts_at_stop new ro"
  shows "halts_at_stop (pre @ new) ro"
proof (cases "ro = Some (Ok ())")
  case True
  with assms(2) have n: "new \<noteq> []" "is_stop (last new)" "list_all (\<lambda>ev. \<not> is_stop ev) (butlast new)"
    by (simp_all add: halts_at_stop_def)
  then show ?thesis using True assms(1) by (simp add: halts_at_stop_def butlast_append)
next
  case False
  with assms show ?thesis by (simp add: halts_at_stop_def)
qed

lemma halts_None_append:
  assumes "halts_at_stop new1 None" "halts_at_stop new2 ro"
  shows "halts_at_stop (new1 @ new2) ro"
  using assms(1) halts_prepend [OF _ assms(2), of new1] by (simp add: halts_at_stop_def)

lemma traced_val_trace:
  "traced_val c g s = (r, s') \<Longrightarrow> fst s' = fst s @ [(c, err_of r)] \<and> g (snd s) = (r, snd s')"
  by (auto simp: traced_val_def split: prod.splits)

lemma traced_trace:
  "traced c g s = (r, s') \<Longrightarrow> fst s' = fst s @ [(c, r)] \<and> g (snd s) = (r, snd s')"
  by (auto simp: traced_def split: prod.splits)

lemma visit_trace:
  "visit f msgs s = (cont, s') \<Longrightarrow> fst s' = fst s @ [(Visit msgs cont, None)] \<and> f msgs (snd s) = (cont, snd s')"
  by (auto simp: visit_def split: prod.splits)

lemma not_stop_simps [simp]:
  "\<not> is_stop (RLock k, x)" "\<not> is_stop (RUnlock k, x)" "\<not> is_stop (Mb_getMessages p, x)"
  "\<not> is_stop (ReadDir p, x)" "\<not> is_stop (Visit msgs True, x)" "is_stop (Visit msgs False, x)"
  by (simp_all add: is_stop_def)

lemma visit_level3_halts:
  "visit_level3 env fs f infos s = (ro, s') \<Longrightarrow> \<exists>new. fst s' = fst s @ new \<and> halts_at_stop new ro"
proof (induction env fs f infos s arbitrary: ro s' rule: visit_level3.induct)
  case (1 env fs f s)
  then show ?case by (simp add: halts_at_stop_def)
next
  case (2 env fs f inf3 infos3 s)
  show ?case
  proof (cases "IsDir inf3")
    case False
    with 2 show ?thesis by simp
  next
    case True
    show ?thesis
    proof (cases "mboxFromHash fs (Name inf3)")
      case Panic
      with True "2.prems" show ?thesis by (auto simp: halts_at_stop_def)
    next
      case (Err e)
      with True "2.prems" show ?thesis by (auto simp: halts_at_stop_def)
    next
      case (Ok mb)
      obtain r s1 where g: "traced_val (Mb_getMessages (path mb)) (getMessages env mb)
          (noted (RLock (RWMutex mb)) s) = (r, s1)" by (metis surj_pair)
      define s2 where "s2 = noted (RUnlock (RWMutex mb)) s1"
      have t2: "fst s2 = fst s @ [(RLock (RWMutex mb), None), (Mb_getMessages (path mb), err_of r),
          (RUnlock (RWMutex mb), None)]"
        using traced_val_trace [OF g] by (simp add: s2_def noted_def)
      show ?thesis
      proof (cases r)
        case (Inl e)
        with True Ok g "2.prems" have "ro = Some (Err e)" "s' = s2"
          by (simp_all add: s2_def Let_def)
        with t2 show ?thesis by (simp add: halts_at_stop_def)
      next
        case (Inr msgs)
        obtain cont s3 where v: "visit f msgs s2 = (cont, s3)" by (metis surj_pair)
        have t3: "fst s3 = fst s2 @ [(Visit msgs cont, None)]" using visit_trace [OF v] by simp
        show ?thesis
        proof (cases cont)
          case False
          with True Ok g Inr v "2.prems" have "ro = Some (Ok ())" "s' = s3"
            by (simp_all add: s2_def Let_def)
          with t2 t3 False show ?thesis by (simp add: halts_at_stop_def)
        next
          case c: True
          with True Ok g Inr v "2.prems" have "visit_level3 env fs f infos3 s3 = (ro, s')"
            by (simp add: s2_def Let_def)
          from "2.IH"(1) [OF True Ok g [symmetric] s2_def [unfolded s2_def] Inr v [symmetric, unfolded s2_def] _ this]
          obtain new where n: "fst s' = fst s3 @ new" "halts_at_stop new ro" using c by auto
          have "halts_at_stop ([(RLock (RWMutex mb), None), (Mb_getMessages (path mb), err_of r),
            (RUnlock (RWMutex mb), None), (Visit msgs cont, None)] @ new) ro"
            using c by (intro halts_prepend n(2)) simp
          with n(1) t2 t3 show ?thesis by auto
        qed
      qed
    qed
  qed
qed


lemma visit_level2_halts:
  "visit_level2 env fs f l1 infos s = (ro, s') \<Longrightarrow> \<exists>new. fst s' = fst s @ new \<and> halts_at_stop new ro"
proof (induction env fs f l1 infos s arbitrary: ro s' rule: visit_level2.induct)
  case (1 env fs f l1 s)
  then show ?case by (simp add: halts_at_stop_def)
next
  case (2 env fs f l1 inf2 infos2 s)
  show ?case
  proof (cases "IsDir inf2")
    case False
    with 2 show ?thesis by simp
  next
    case True
    define d where "d = filepath_Join [mailPath fs, l1, Name inf2]"
    obtain r s1 where g: "traced_val (ReadDir d) (ioutil_ReadDir env d) s = (r, s1)"
      by (metis surj_pair)
    have t1: "fst s1 = fst s @ [(ReadDir d, err_of r)]" using traced_val_trace [OF g] by simp
    show ?thesis
    proof (cases r)
      case (Inl e)
      with True g "2.prems" have "ro = Some (Err e)" "s' = s1" by (simp_all add: d_def Let_def)
      with t1 show ?thesis by (simp add: halts_at_stop_def)
    next
      case (Inr infos3)
      obtain ro3 s2 where v: "visit_level3 env fs f infos3 s1 = (ro3, s2)" by (metis surj_pair)
      from visit_level3_halts [OF v] obtain new3 where
        n3: "fst s2 = fst s1 @ new3" "halts_at_stop new3 ro3" by blast
      show ?thesis
      proof (cases ro3)
        case (Some x)
        with True g Inr v "2.prems" have "ro = ro3" "s' = s2" by (simp_all add: d_def Let_def)
        moreover have "halts_at_stop ([(ReadDir d, err_of r)] @ new3) ro3"
          using halts_prepend [of "[(ReadDir d, err_of r)]" new3 ro3] n3(2) by simp
        ultimately show ?thesis using t1 n3(1) by auto
      next
        case None
        with True g Inr v "2.prems" have "visit_level2 env fs f l1 infos2 s2 = (ro, s')"
          by (simp add: d_def Let_def)
        from "2.IH"(1) [OF True refl d_def [unfolded d_def] g [symmetric, unfolded d_def] Inr [THEN sym, THEN sym]
            v [symmetric] None this]
        obtain new where n: "fst s' = fst s2 @ new" "halts_at_stop new ro" by blast
        have "halts_at_stop (new3 @ new) ro"
          using n3(2) None n(2) by (intro halts_None_append) simp_all
        then have "halts_at_stop ([(ReadDir d, err_of r)] @ new3 @ new) ro"
          using halts_prepend [of "[(ReadDir d, err_of r)]" "new3 @ new" ro] by simp
        with n(1) n3(1) t1 show ?thesis by auto
      qed
    qed
  qed
qed


lemma visit_level1_halts:
  "visit_level1 env fs f infos s = (ro, s') \<Longrightarrow> \<exists>new. fst s' = fst s @ new \<and> halts_at_stop new ro"
proof (induction env fs f infos s arbitrary: ro s' rule: visit_level1.induct)
  case (1 env fs f s)
  then show ?case by (simp add: halts_at_stop_def)
next
  case (2 env fs f inf1 infos1 s)
  show ?case
  proof (cases "IsDir inf1")
    case False
    with 2 show ?thesis by simp
  next
    case True
    define d where "d = filepath_Join [mailPath fs, Name inf1]"
    obtain r s1 where g: "traced_val (ReadDir d) (ioutil_ReadDir env d) s = (r, s1)"
      by (metis surj_pair)
    have t1: "fst s1 = fst s @ [(ReadDir d, err_of r)]" using traced_val_trace [OF g] by simp
    show ?thesis
    proof (cases r)
      case (Inl e)
      with True g "2.prems" have "ro = Some (Err e)" "s' = s1" by (simp_all add: d_def Let_def)
      with t1 show ?thesis by (simp add: halts_at_stop_def)
    next
      case (Inr infos2)
      obtain ro2 s2 where v: "visit_level2 env fs f (Name inf1) infos2 s1 = (ro2, s2)"
        by (metis surj_pair)
      from visit_level2_halts [OF v] obtain new2 where
        n2: "fst s2 = fst s1 @ new2" "halts_at_stop new2 ro2" by blast
      show ?thesis
      proof (cases ro2)
        case (Some x)
        with True g Inr v "2.prems" have "ro = ro2" "s' = s2" by (simp_all add: d_def Let_def)
        moreover have "halts_at_stop ([(ReadDir d, err_of r)] @ new2) ro2"
          using halts_prepend [of "[(ReadDir d, err_of r)]" new2 ro2] n2(2) by simp
        ultimately show ?thesis using t1 n2(1) by auto
      next
        case None
        with True g Inr v "2.prems" have "visit_level1 env fs f infos1 s2 = (ro, s')"
          by (simp add: d_def Let_def)
        from "2.IH"(1) [OF True refl d_def [unfolded d_def] g [symmetric, unfolded d_def] Inr [THEN sym, THEN sym]
            v [symmetric] None this]
        obtain new where n: "fst s' = fst s2 @ new" "halts_at_stop new ro" by blast
        have "halts_at_stop (new2 @ new) ro"
          using n2(2) None n(2) by (intro halts_None_append) simp_all
        then have "halts_at_stop ([(ReadDir d, err_of r)] @ new2 @ new) ro"
          using halts_prepend [of "[(ReadDir d, err_of r)]" "new2 @ new" ro] by simp
        with n(1) n2(1) t1 show ?thesis by auto
      qed
    qed
  qed
qed

lemma VisitMailboxes_halts:
  assumes "VisitMailboxes env fs f s = (r, s')"
  shows "\<exists>new ro. fst s' = fst s @ new \<and> halts_at_stop new ro \<and>
           (case ro of None \<Rightarrow> r = Ok () | Some x \<Rightarrow> r = x)"
proof -
  obtain q s1 where g: "traced_val (ReadDir (mailPath fs)) (ioutil_ReadDir env (mailPath fs)) s = (q, s1)"
    by (metis surj_pair)
  have t1: "fst s1 = fst s @ [(ReadDir (mailPath fs), err_of q)]"
    using traced_val_trace [OF g] by simp
  show ?thesis
  proof (cases q)
    case (Inl e)
    with g assms have "r = Err e" "s' = s1" by (simp_all add: VisitMailboxes_def)
    with t1 have "fst s' = fst s @ [(ReadDir (mailPath fs), err_of q)] \<and>
        halts_at_stop [(ReadDir (mailPath fs), err_of q)] (Some (Err e)) \<and>
        (case Some (Err e) of None \<Rightarrow> r = Ok () | Some x \<Rightarrow> r = x)"
      by (simp add: halts_at_stop_def)
    then show ?thesis by blast
  next
    case (Inr infos1)
    obtain ro s2 where v: "visit_level1 env fs f infos1 s1 = (ro, s2)" by (metis surj_pair)
    from visit_level1_halts [OF v] obtain new1 where
      n1: "fst s2 = fst s1 @ new1" "halts_at_stop new1 ro" by blast
    have h: "halts_at_stop ([(ReadDir (mailPath fs), err_of q)] @ new1) ro"
      using halts_prepend [of "[(ReadDir (mailPath fs), err_of q)]" new1 ro] n1(2) by simp
    have "s' = s2" "case ro of None \<Rightarrow> r = Ok () | Some x \<Rightarrow> r = x"
      using g Inr v assms by (auto simp: VisitMailboxes_def split: option.splits)
    with h n1(1) t1 show ?thesis by auto
  qed
qed

text \<open>
  C7. When the visitor answers ``stop'' for some mailbox, that call of the visitor is the
  last thing \<open>VisitMailboxes\<close> does, at whatever depth of the three loops it happened: no
  directory is listed, no mailbox is read and the visitor is not called after it; every
  earlier answer of the visitor was ``go on'', and \<open>VisitMailboxes\<close> returns \<^verbatim>\<open>nil\<close>.
\<close>

theorem VisitMailboxes_stops_at_once:
  assumes "VisitMailboxes env fs f ([], w) = (r, (tr, w'))"
    and "(Visit msgs False, x) \<in> set tr"
  shows "r = Ok () \<and>
         (\<exists>pre. tr = pre @ [(Visit msgs False, x)] \<and> list_all (\<lambda>ev. \<not> is_stop ev) pre) \<and>
         length (filter is_stop tr) = 1"
proof -
  from VisitMailboxes_halts [OF assms(1)] obtain ro where
    h: "halts_at_stop tr ro" and c: "case ro of None \<Rightarrow> r = Ok () | Some x \<Rightarrow> r = x"
    by auto
  have s: "is_stop (Visit msgs False, x)" by simp
  have ro: "ro = Some (Ok ())"
  proof (rule ccontr)
    assume "ro \<noteq> Some (Ok ())"
    with h have "list_all (\<lambda>ev. \<not> is_stop ev) tr" by (simp add: halts_at_stop_def)
    with assms(2) s show False by (auto simp: list_all_iff)
  qed
  with h have n: "tr \<noteq> []" "is_stop (last tr)" "list_all (\<lambda>ev. \<not> is_stop ev) (butlast tr)"
    by (simp_all add: halts_at_stop_def)
  have "(Visit msgs False, x) \<notin> set (butlast tr)"
    using n(3) s by (auto simp: list_all_iff)
  moreover have "tr = butlast tr @ [last tr]" using n(1) by simp
  ultimately have l: "last tr = (Visit msgs False, x)"
    using assms(2) by (metis Un_iff empty_iff empty_set set_ConsD set_append)
  with n(1) have t: "tr = butlast tr @ [(Visit msgs False, x)]" by (metis append_butlast_last_id)
  have "filter is_stop (butlast tr) = []"
    using n(3) by (simp add: filter_empty_conv list_all_iff)
  then have "filter is_stop (butlast tr @ [(Visit msgs False, x)]) = [(Visit msgs False, x)]"
    using s by simp
  with t have "length (filter is_stop tr) = 1" by simp
  moreover have "r = Ok ()" using c ro by simp
  ultimately show ?thesis using t n(3) by blast
qed

lemmas disk_simps =
  disk_ReadDir_def children_def parent_def base_def elems_of_def path_of_def is_dir_def
  less_eq_char_def less_char_def dir_entry_def

lemma sample_rd1: "disk_ReadDir ''/d/mail'' three_mailboxes = (Inr [dir_entry ''481'', dir_entry ''522''], three_mailboxes)"
  by (simp add: three_mailboxes_def disk_simps)

lemma sample_rd2: "disk_ReadDir ''/d/mail/481'' three_mailboxes = (Inr [dir_entry ''48181a'', dir_entry ''4818f0''], three_mailboxes)"
  by (simp add: three_mailboxes_def disk_simps)

lemma sample_rd3: "disk_ReadDir ''/d/mail/481/48181a'' three_mailboxes = (Inr [dir_entry ''48181acd22''], three_mailboxes)"
  by (simp add: three_mailboxes_def disk_simps)

lemma sample_mailPath: "mailPath sample_store = ''/d/mail''"
  by (simp add: sample_store_def)

lemma sample_joins: "filepath_Join [''/d/mail'', ''481''] = ''/d/mail/481''"
  "filepath_Join [''/d/mail'', ''481'', ''48181a''] = ''/d/mail/481/48181a''"
  by (simp_all add: filepath_Join_def filepath_Clean_def Let_def)

lemma sample_mboxFromHash: "mboxFromHash sample_store ''48181acd22'' =
     Ok \<lparr>RWMutex = ''48181acd22'', store = sample_store, name = [], dirName = ''48181acd22'',
         path = ''/d/mail/481/48181a/48181acd22'',
         indexPath = ''/d/mail/481/48181a/48181acd22/index.gob'', messages = []\<rparr>"
  by (simp add: mboxFromHash_def go_slice_def sample_store_def
      filepath_Join_def filepath_Clean_def Let_def indexFileName_def)

lemma sample_getMessages: "spec_getMessages \<lparr>RWMutex = ''48181acd22'', store = sample_store, name = [], dirName = ''48181acd22'',
         path = ''/d/mail/481/48181a/48181acd22'',
         indexPath = ''/d/mail/481/48181a/48181acd22/index.gob'', messages = []\<rparr> three_mailboxes
    = (Inr [sample_record ''20230101T000000-0000''], three_mailboxes)"
  by (simp add: spec_getMessages_def spec_load_def three_mailboxes_def)

lemma sample_visit:
  "VisitMailboxes sample_env sample_store stop_at_once ([], three_mailboxes) =
     (Ok (),
      ([(ReadDir ''/d/mail'', None), (ReadDir ''/d/mail/481'', None),
        (ReadDir ''/d/mail/481/48181a'', None), (RLock ''48181acd22'', None),
        (Mb_getMessages ''/d/mail/481/48181a/48181acd22'', None), (RUnlock ''48181acd22'', None),
        (Visit [sample_record ''20230101T000000-0000''] False, None)],
       three_mailboxes))"
  by (simp add: VisitMailboxes_def traced_val_def noted_def visit_def stop_at_once_def Let_def
      sample_env_def disk_env_def sample_mailPath sample_rd1 sample_rd2 sample_rd3 sample_joins sample_mboxFromHash
      sample_getMessages dir_entry_def)


text \<open>The sample disk holds three mailboxes: the visitor that never stops is called three times.\<close>

lemma three_visits:
  "map fst (filter is_visit (fst (snd (VisitMailboxes sample_env sample_store go_on ([], three_mailboxes))))) =
     [Visit [sample_record ''20230101T000000-0000''] True,
      Visit [sample_record ''20230101T000000-0001''] True,
      Visit [sample_record ''20230101T000000-0002''] True]"
  "fst (VisitMailboxes sample_env sample_store go_on ([], three_mailboxes)) = Ok ()"
  by (simp_all add: VisitMailboxes_def traced_val_def noted_def visit_def go_on_def Let_def
      sample_env_def disk_env_def sample_mailPath three_mailboxes_def disk_simps
      spec_getMessages_def spec_load_def mboxFromHash_def go_slice_def
      filepath_Join_def filepath_Clean_def indexFileName_def is_visit_def)

theorem VisitMailboxes_stops_at_once_witness:
  "VisitMailboxes sample_env sample_store stop_at_once ([], three_mailboxes) =
     (Ok (),
      ([(ReadDir ''/d/mail'', None), (ReadDir ''/d/mail/481'', None),
        (ReadDir ''/d/mail/481/48181a'', None), (RLock ''48181acd22'', None),
        (Mb_getMessages ''/d/mail/481/48181a/48181acd22'', None), (RUnlock ''48181acd22'', None),
        (Visit [sample_record ''20230101T000000-0000''] False, None)],
       three_mailboxes)) \<and>
   length (filter is_visit
      [(ReadDir ''/d/mail'', None), (ReadDir ''/d/mail/481'', None),
        (ReadDir ''/d/mail/481/48181a'', None), (RLock ''48181acd22'', None),
        (Mb_getMessages ''/d/mail/481/48181a/48181acd22'', None), (RUnlock ''48181acd22'', None),
        (Visit [sample_record ''20230101T000000-0000''] False, None)]) = 1 \<and>
   length (filter is_stop
      [(ReadDir ''/d/mail'', None), (ReadDir ''/d/mail/481'', None),
        (ReadDir ''/d/mail/481/48181a'', None), (RLock ''48181acd22'', None),
        (Mb_getMessages ''/d/mail/481/48181a/48181acd22'', None), (RUnlock ''48181acd22'', None),
        (Visit [sample_record ''20230101T000000-0000''] False, None)]) = 1 \<and>
   length (filter is_visit
      (fst (snd (VisitMailboxes sample_env sample_store go_on ([], three_mailboxes))))) = 3"
proof -
  have m: "(Visit [sample_record ''20230101T000000-0000''] False, None) \<in> set
      [(ReadDir ''/d/mail'', None), (ReadDir ''/d/mail/481'', None),
        (ReadDir ''/d/mail/481/48181a'', None), (RLock ''48181acd22'', None),
        (Mb_getMessages ''/d/mail/481/48181a/48181acd22'', None), (RUnlock ''48181acd22'', None),
        (Visit [sample_record ''20230101T000000-0000''] False, None)]"
    by simp
  have v: "length (filter is_visit
      [(ReadDir ''/d/mail'', None), (ReadDir ''/d/mail/481'', None),
        (ReadDir ''/d/mail/481/48181a'', None), (RLock ''48181acd22'', None),
        (Mb_getMessages ''/d/mail/481/48181a/48181acd22'', None), (RUnlock ''48181acd22'', None),
        (Visit [sample_record ''20230101T000000-0000''] False, None)]) = 1"
    by (simp add: is_visit_def)
  have "length (map fst (filter is_visit
      (fst (snd (VisitMailboxes sample_env sample_store go_on ([], three_mailboxes)))))) = 3"
    by (simp only: three_visits(1)) simp
  then have d: "length (filter is_visit
      (fst (snd (VisitMailboxes sample_env sample_store go_on ([], three_mailboxes))))) = 3"
    by simp
  from VisitMailboxes_stops_at_once [OF sample_visit m] sample_visit v d show ?thesis by blast
qed

section \<open>Directory names shorter than the shards\<close>

lemma mboxFromHash_Panic: "mboxFromHash fs hash = Panic \<longleftrightarrow> length hash < 6"
  by (auto simp: mboxFromHash_def go_slice_def Let_def)

lemma visit_level3_short:
  "IsDir inf3 \<Longrightarrow> length (Name inf3) < 6 \<Longrightarrow> visit_level3 env fs f (inf3 # infos3) s = (Some Panic, s)"
  using mboxFromHash_Panic [of fs "Name inf3"] by simp

lemma visit_level3_total:
  "list_all (\<lambda>i. IsDir i \<longrightarrow> 6 \<le> length (Name i)) infos \<Longrightarrow>
   fst (visit_level3 env fs f infos s) \<noteq> Some Panic"
proof (induction infos arbitrary: s)
  case Nil
  then show ?case by simp
next
  case (Cons i infos)
  then have r: "\<And>s. fst (visit_level3 env fs f infos s) \<noteq> Some Panic" by simp
  show ?case
  proof (cases "IsDir i")
    case False
    with r show ?thesis by simp
  next
    case True
    with Cons.prems have "\<not> length (Name i) < 6" by simp
    then obtain mb where m: "mboxFromHash fs (Name i) = Ok mb"
      using mboxFromHash_Panic [of fs "Name i"]
      by (cases "mboxFromHash fs (Name i)") (auto simp: mboxFromHash_def Let_def split: option.splits)
    show ?thesis
      using True m r
      by (auto simp: Let_def split: prod.splits sum.splits)
  qed
qed

lemma visit_level3_complete:
  "fst (visit_level3 env fs f infos s) = None \<Longrightarrow>
   list_all (\<lambda>i. IsDir i \<longrightarrow> 6 \<le> length (Name i)) infos"
proof (induction infos arbitrary: s)
  case Nil
  then show ?case by simp
next
  case (Cons i infos)
  show ?case
  proof (cases "IsDir i")
    case False
    with Cons show ?thesis by simp
  next
    case True
    have l: "\<not> length (Name i) < 6"
      using visit_level3_short [OF True, of env fs f infos s] Cons.prems by auto
    have "\<exists>s3. fst (visit_level3 env fs f infos s3) = None"
      using Cons.prems True
      by (auto simp: Let_def split: outcome.splits prod.splits sum.splits if_splits)
    with Cons.IH l show ?thesis by auto
  qed
qed

lemma same_dirs_refl: "same_dirs env fs w w"
  by (simp add: same_dirs_def)

lemma tree_keptD:
  assumes "tree_kept env fs f w0" "same_dirs env fs w0 w"
  shows "same_dirs env fs w0 (snd (ioutil_ReadDir env p w))"
    and "same_dirs env fs w0 (snd (getMessages env mb w))"
    and "same_dirs env fs w0 (snd (f msgs w))"
  using assms unfolding tree_kept_def by blast+

lemma visit_level3_kept:
  assumes "tree_kept env fs f w0" and "same_dirs env fs w0 (snd s)"
  shows "same_dirs env fs w0 (snd (snd (visit_level3 env fs f infos s)))"
  using assms(2)
proof (induction infos arbitrary: s)
  case Nil
  then show ?case by simp
next
  case (Cons i infos)
  show ?case
  proof (cases "IsDir i")
    case False
    with Cons show ?thesis by simp
  next
    case True
    show ?thesis
    proof (cases "mboxFromHash fs (Name i)")
      case Panic
      with True Cons.prems show ?thesis by simp
    next
      case (Err e)
      with True Cons.prems show ?thesis by simp
    next
      case (Ok mb)
      obtain r s1 where g: "traced_val (Mb_getMessages (path mb)) (getMessages env mb)
          (noted (RLock (RWMutex mb)) s) = (r, s1)" by (metis surj_pair)
      define s2 where "s2 = noted (RUnlock (RWMutex mb)) s1"
      have "snd s1 = snd (getMessages env mb (snd s))"
        using traced_val_trace [OF g] by (simp add: noted_def)
      then have k2: "same_dirs env fs w0 (snd s2)"
        using tree_keptD(2) [OF assms(1) Cons.prems, of mb] by (simp add: s2_def noted_def)
      show ?thesis
      proof (cases r)
        case (Inl e)
        with True Ok g k2 show ?thesis by (simp add: s2_def Let_def)
      next
        case (Inr msgs)
        obtain cont s3 where v: "visit f msgs s2 = (cont, s3)" by (metis surj_pair)
        have k3: "same_dirs env fs w0 (snd s3)"
          using visit_trace [OF v] tree_keptD(3) [OF assms(1) k2, of msgs] by simp
        show ?thesis
        proof (cases cont)
          case False
          with True Ok g Inr v k3 show ?thesis by (simp add: s2_def Let_def)
        next
          case c: True
          with True Ok g Inr v Cons.IH [OF k3] show ?thesis by (simp add: s2_def Let_def)
        qed
      qed
    qed
  qed
qed

lemma visit_level2_dirs:
  assumes "tree_kept env fs f w0" and "same_dirs env fs w0 (snd s)"
  shows "same_dirs env fs w0 (snd (snd (visit_level2 env fs f l1 infos s))) \<and>
     (fst (visit_level2 env fs f l1 infos s) = Some Panic \<longrightarrow>
        (\<exists>i2 \<in> set infos. IsDir i2 \<and>
           (\<exists>l3 \<in> set (dir_names (ioutil_ReadDir env (filepath_Join [mailPath fs, l1, Name i2]) w0)).
              length l3 < 6))) \<and>
     (fst (visit_level2 env fs f l1 infos s) = None \<longrightarrow>
        (\<forall>i2 \<in> set infos. IsDir i2 \<longrightarrow>
           (\<forall>l3 \<in> set (dir_names (ioutil_ReadDir env (filepath_Join [mailPath fs, l1, Name i2]) w0)).
              6 \<le> length l3)))"
  using assms(2)
proof (induction infos arbitrary: s)
  case Nil
  then show ?case by simp
next
  case (Cons i infos)
  show ?case
  proof (cases "IsDir i")
    case False
    with Cons.IH [OF Cons.prems] show ?thesis by simp
  next
    case True
    define d where "d = filepath_Join [mailPath fs, l1, Name i]"
    obtain q s1 where g: "traced_val (ReadDir d) (ioutil_ReadDir env d) s = (q, s1)"
      by (metis surj_pair)
    have w1: "ioutil_ReadDir env d (snd s) = (q, snd s1)" using traced_val_trace [OF g] by simp
    have k1: "same_dirs env fs w0 (snd s1)"
      using tree_keptD(1) [OF assms(1) Cons.prems, of d] w1 by simp
    have n0: "dir_names (ioutil_ReadDir env d (snd s)) = dir_names (ioutil_ReadDir env d w0)"
      using Cons.prems by (simp add: same_dirs_def d_def)
    show ?thesis
    proof (cases q)
      case (Inl e)
      with True g k1 show ?thesis by (simp add: d_def Let_def)
    next
      case (Inr infos3)
      have names: "dir_names (ioutil_ReadDir env d w0) = map Name (filter IsDir infos3)"
        using n0 w1 Inr by (simp add: dir_names_def)
      obtain ro3 s2 where v: "visit_level3 env fs f infos3 s1 = (ro3, s2)" by (metis surj_pair)
      have k2: "same_dirs env fs w0 (snd s2)"
        using visit_level3_kept [OF assms(1) k1, of infos3] v by simp
      show ?thesis
      proof (cases ro3)
        case (Some x)
        have res: "visit_level2 env fs f l1 (i # infos) s = (Some x, s2)"
          using True g Inr v Some by (simp add: d_def Let_def)
        have "x = Panic \<longrightarrow> (\<exists>l3 \<in> set (dir_names (ioutil_ReadDir env d w0)). length l3 < 6)"
        proof
          assume "x = Panic"
          with v Some have "\<not> list_all (\<lambda>i. IsDir i \<longrightarrow> 6 \<le> length (Name i)) infos3"
            using visit_level3_total [of infos3 env fs f s1] by auto
          then obtain i3 where "i3 \<in> set infos3" "IsDir i3" "length (Name i3) < 6"
            by (auto simp: list_all_iff not_le)
          with names show "\<exists>l3 \<in> set (dir_names (ioutil_ReadDir env d w0)). length l3 < 6"
            by auto
        qed
        with res k2 True show ?thesis by (auto simp: d_def)
      next
        case None
        have res: "visit_level2 env fs f l1 (i # infos) s = visit_level2 env fs f l1 infos s2"
          using True g Inr v None by (simp add: d_def Let_def)
        have hd: "\<forall>l3 \<in> set (dir_names (ioutil_ReadDir env d w0)). 6 \<le> length l3"
          using visit_level3_complete [of env fs f infos3 s1] v None names
          by (auto simp: list_all_iff)
        from Cons.IH [OF k2] res hd True show ?thesis by (auto simp: d_def)
      qed
    qed
  qed
qed

lemma visit_level1_dirs:
  assumes "tree_kept env fs f w0" and "same_dirs env fs w0 (snd s)"
  shows "same_dirs env fs w0 (snd (snd (visit_level1 env fs f infos s))) \<and>
     (fst (visit_level1 env fs f infos s) = Some Panic \<longrightarrow>
        (\<exists>i1 \<in> set infos. IsDir i1 \<and>
           (\<exists>l2 \<in> set (dir_names (ioutil_ReadDir env (filepath_Join [mailPath fs, Name i1]) w0)).
            \<exists>l3 \<in> set (dir_names (ioutil_ReadDir env (filepath_Join [mailPath fs, Name i1, l2]) w0)).
              length l3 < 6))) \<and>
     (fst (visit_level1 env fs f infos s) = None \<longrightarrow>
        (\<forall>i1 \<in> set infos. IsDir i1 \<longrightarrow>
           (\<forall>l2 \<in> set (dir_names (ioutil_ReadDir env (filepath_Join [mailPath fs, Name i1]) w0)).
            \<forall>l3 \<in> set (dir_names (ioutil_ReadDir env (filepath_Join [mailPath fs, Name i1, l2]) w0)).
              6 \<le> length l3)))"
  using assms(2)
proof (induction infos arbitrary: s)
  case Nil
  then show ?case by simp
next
  case (Cons i infos)
  show ?case
  proof (cases "IsDir i")
    case False
    with Cons.IH [OF Cons.prems] show ?thesis by simp
  next
    case True
    define d where "d = filepath_Join [mailPath fs, Name i]"
    obtain q s1 where g: "traced_val (ReadDir d) (ioutil_ReadDir env d) s = (q, s1)"
      by (metis surj_pair)
    have w1: "ioutil_ReadDir env d (snd s) = (q, snd s1)" using traced_val_trace [OF g] by simp
    have k1: "same_dirs env fs w0 (snd s1)"
      using tree_keptD(1) [OF assms(1) Cons.prems, of d] w1 by simp
    have n0: "dir_names (ioutil_ReadDir env d (snd s)) = dir_names (ioutil_ReadDir env d w0)"
      using Cons.prems by (simp add: same_dirs_def d_def)
    show ?thesis
    proof (cases q)
      case (Inl e)
      with True g k1 show ?thesis by (simp add: d_def Let_def)
    next
      case (Inr infos2)
      have names: "dir_names (ioutil_ReadDir env d w0) = map Name (filter IsDir infos2)"
        using n0 w1 Inr by (simp add: dir_names_def)
      obtain ro2 s2 where v: "visit_level2 env fs f (Name i) infos2 s1 = (ro2, s2)"
        by (metis surj_pair)
      note l2 = visit_level2_dirs [OF assms(1) k1, of "Name i" infos2, unfolded v fst_conv snd_conv]
      have k2: "same_dirs env fs w0 (snd s2)" using l2 by simp
      show ?thesis
      proof (cases ro2)
        case (Some x)
        have res: "visit_level1 env fs f (i # infos) s = (Some x, s2)"
          using True g Inr v Some by (simp add: d_def Let_def)
        have "x = Panic \<longrightarrow>
           (\<exists>l2 \<in> set (dir_names (ioutil_ReadDir env d w0)).
            \<exists>l3 \<in> set (dir_names (ioutil_ReadDir env (filepath_Join [mailPath fs, Name i, l2]) w0)).
              length l3 < 6)"
          using l2 Some names by auto
        with res k2 True show ?thesis by (auto simp: d_def)
      next
        case None
        have res: "visit_level1 env fs f (i # infos) s = visit_level1 env fs f infos s2"
          using True g Inr v None by (simp add: d_def Let_def)
        have hd: "\<forall>l2 \<in> set (dir_names (ioutil_ReadDir env d w0)).
            \<forall>l3 \<in> set (dir_names (ioutil_ReadDir env (filepath_Join [mailPath fs, Name i, l2]) w0)).
              6 \<le> length l3"
          using l2 None names by auto
        from Cons.IH [OF k2] res hd True show ?thesis by (auto simp: d_def)
      qed
    qed
  qed
qed

lemma VisitMailboxes_dirs:
  assumes "tree_kept env fs f (snd s)"
  shows "(fst (VisitMailboxes env fs f s) = Panic \<longrightarrow> \<not> third_level_names_ok env fs (snd s)) \<and>
         (\<not> third_level_names_ok env fs (snd s) \<longrightarrow>
            fst (VisitMailboxes env fs f s) = Panic \<or> (\<exists>e. fst (VisitMailboxes env fs f s) = Err e) \<or>
            list_ex is_stop (drop (length (fst s)) (fst (snd (VisitMailboxes env fs f s)))))"
proof -
  let ?mp = "mailPath fs"
  obtain q s1 where g: "traced_val (ReadDir ?mp) (ioutil_ReadDir env ?mp) s = (q, s1)"
    by (metis surj_pair)
  have w1: "ioutil_ReadDir env ?mp (snd s) = (q, snd s1)"
    and t1: "fst s1 = fst s @ [(ReadDir ?mp, err_of q)]"
    using traced_val_trace [OF g] by simp_all
  have k1: "same_dirs env fs (snd s) (snd s1)"
    using tree_keptD(1) [OF assms same_dirs_refl, of ?mp] w1 by simp
  show ?thesis
  proof (cases q)
    case (Inl e)
    with g show ?thesis by (simp add: VisitMailboxes_def)
  next
    case (Inr infos1)
    have names: "dir_names (ioutil_ReadDir env ?mp (snd s)) = map Name (filter IsDir infos1)"
      using w1 Inr by (simp add: dir_names_def)
    obtain ro s2 where v: "visit_level1 env fs f infos1 s1 = (ro, s2)" by (metis surj_pair)
    note l1 = visit_level1_dirs [OF assms k1, of infos1, unfolded v fst_conv snd_conv]
    from visit_level1_halts [OF v] obtain new1 where
      n1: "fst s2 = fst s1 @ new1" "halts_at_stop new1 ro" by blast
    have res: "VisitMailboxes env fs f s = ((case ro of None \<Rightarrow> Ok () | Some r \<Rightarrow> r), s2)"
      using g Inr v by (simp add: VisitMailboxes_def split: option.splits)
    have a: "fst (VisitMailboxes env fs f s) = Panic \<longrightarrow> \<not> third_level_names_ok env fs (snd s)"
    proof
      assume "fst (VisitMailboxes env fs f s) = Panic"
      with res have "ro = Some Panic" by (auto split: option.splits)
      with l1 names show "\<not> third_level_names_ok env fs (snd s)"
        by (fastforce simp: third_level_names_ok_def)
    qed
    have b: "\<not> third_level_names_ok env fs (snd s) \<longrightarrow>
         fst (VisitMailboxes env fs f s) = Panic \<or> (\<exists>e. fst (VisitMailboxes env fs f s) = Err e) \<or>
         list_ex is_stop (drop (length (fst s)) (fst (snd (VisitMailboxes env fs f s))))"
    proof
      assume n: "\<not> third_level_names_ok env fs (snd s)"
      have "ro \<noteq> None"
      proof
        assume "ro = None"
        with l1 names have "third_level_names_ok env fs (snd s)"
          by (fastforce simp: third_level_names_ok_def)
        with n show False by simp
      qed
      then obtain x where x: "ro = Some x" by auto
      show "fst (VisitMailboxes env fs f s) = Panic \<or> (\<exists>e. fst (VisitMailboxes env fs f s) = Err e) \<or>
         list_ex is_stop (drop (length (fst s)) (fst (snd (VisitMailboxes env fs f s))))"
      proof (cases x)
        case (Ok u)
        with x n1(2) have "new1 \<noteq> []" "is_stop (last new1)" by (simp_all add: halts_at_stop_def)
        then have "list_ex is_stop new1" by (metis last_in_set list_ex_iff)
        then have "list_ex is_stop (drop (length (fst s)) (fst s2))"
          using n1(1) t1 by (simp add: list_ex_iff)
        with res show ?thesis by simp
      next
        case (Err e)
        with res x show ?thesis by simp
      next
        case Panic
        with res x show ?thesis by simp
      qed
    qed
    from a b show ?thesis by blast
  qed
qed

text \<open>
  C10. \<open>mboxFromHash\<close> panics exactly on a hash of fewer than 6 bytes (the slice
  \<^verbatim>\<open>hash[0:6]\<close>, or already \<^verbatim>\<open>hash[0:3]\<close>, is out of range). So the loop over a
  third-level listing panics at a directory with such a name, before any lock, read or
  visitor call for it. For a traversal that leaves the directories of the mail tree as
  they are: when every directory at the third level of the tree has a name of 6 bytes or
  more, \<open>VisitMailboxes\<close> does not panic; when some directory at the third level,
  wherever it is listed, has a shorter name, \<open>VisitMailboxes\<close> cannot run to its end:
  it panics, unless it has returned before that at an error or at the visitor's ``stop''.
\<close>

theorem short_directory_name_panics:
  "(mboxFromHash fs hash = Panic \<longleftrightarrow> length hash < 6) \<and>
   (IsDir inf3 \<and> length (Name inf3) < 6 \<longrightarrow>
      visit_level3 env fs f (inf3 # infos3) s = (Some Panic, s)) \<and>
   (tree_kept env fs f (snd s) \<and> third_level_names_ok env fs (snd s) \<longrightarrow>
      fst (VisitMailboxes env fs f s) \<noteq> Panic) \<and>
   (tree_kept env fs f (snd s) \<and> \<not> third_level_names_ok env fs (snd s) \<longrightarrow>
      fst (VisitMailboxes env fs f s) = Panic \<or> (\<exists>e. fst (VisitMailboxes env fs f s) = Err e) \<or>
      list_ex is_stop (drop (length (fst s)) (fst (snd (VisitMailboxes env fs f s)))))"
  using mboxFromHash_Panic [of fs hash] visit_level3_short [of inf3 env fs f infos3 s]
    VisitMailboxes_dirs [of env fs f s]
  by blast

lemma disk_env_tree_kept:
  assumes "\<And>msgs d. snd (f msgs d) = d"
  shows "tree_kept (disk_env parse hash) fs f w0"
  unfolding tree_kept_def
  by (simp add: assms disk_env_def disk_ReadDir_def spec_getMessages_def split: option.splits)

lemma sample_rd4: "disk_ReadDir ''/d/mail/481/4818f0'' three_mailboxes = (Inr [dir_entry ''4818f00d00''], three_mailboxes)"
  by (simp add: three_mailboxes_def disk_simps)

lemma sample_rd5: "disk_ReadDir ''/d/mail/522'' three_mailboxes = (Inr [dir_entry ''522b27''], three_mailboxes)"
  by (simp add: three_mailboxes_def disk_simps)

lemma sample_rd6: "disk_ReadDir ''/d/mail/522/522b27'' three_mailboxes = (Inr [dir_entry ''522b276a35''], three_mailboxes)"
  by (simp add: three_mailboxes_def disk_simps)

lemma sample_joins2: "filepath_Join [''/d/mail'', ''522''] = ''/d/mail/522''"
  "filepath_Join [''/d/mail'', ''481'', ''4818f0''] = ''/d/mail/481/4818f0''"
  "filepath_Join [''/d/mail'', ''522'', ''522b27''] = ''/d/mail/522/522b27''"
  by (simp_all add: filepath_Join_def filepath_Clean_def Let_def)

lemma sample_dirs:
  "dir_names (disk_ReadDir ''/d/mail'' three_mailboxes) = [''481'', ''522'']"
  "dir_names (disk_ReadDir ''/d/mail/481'' three_mailboxes) = [''48181a'', ''4818f0'']"
  "dir_names (disk_ReadDir ''/d/mail/481/48181a'' three_mailboxes) = [''48181acd22'']"
  "dir_names (disk_ReadDir ''/d/mail/481/4818f0'' three_mailboxes) = [''4818f00d00'']"
  "dir_names (disk_ReadDir ''/d/mail/522'' three_mailboxes) = [''522b27'']"
  "dir_names (disk_ReadDir ''/d/mail/522/522b27'' three_mailboxes) = [''522b276a35'']"
  by (simp_all add: dir_names_def sample_rd1 sample_rd2 sample_rd3 sample_rd4 sample_rd5 sample_rd6
      dir_entry_def)

lemma three_mailboxes_names_ok: "third_level_names_ok sample_env sample_store three_mailboxes"
  by (simp add: third_level_names_ok_def sample_env_def disk_env_def sample_mailPath
      sample_dirs sample_joins sample_joins2)

lemma short_rd1: "disk_ReadDir ''/d/mail'' short_name_disk = (Inr [dir_entry ''481'', dir_entry ''522''], short_name_disk)"
  by (simp add: short_name_disk_def three_mailboxes_def disk_simps)

lemma short_rd2: "disk_ReadDir ''/d/mail/481'' short_name_disk = (Inr [dir_entry ''48181a'', dir_entry ''4818f0''], short_name_disk)"
  by (simp add: short_name_disk_def three_mailboxes_def disk_simps)

lemma short_rd3:
  "disk_ReadDir ''/d/mail/481/48181a'' short_name_disk =
     (Inr [dir_entry ''48181acd22'', dir_entry ''tmp''], short_name_disk)"
  by (simp add: short_name_disk_def three_mailboxes_def disk_simps)

lemma short_dirs:
  "dir_names (disk_ReadDir ''/d/mail'' short_name_disk) = [''481'', ''522'']"
  "dir_names (disk_ReadDir ''/d/mail/481'' short_name_disk) = [''48181a'', ''4818f0'']"
  "dir_names (disk_ReadDir ''/d/mail/481/48181a'' short_name_disk) = [''48181acd22'', ''tmp'']"
  by (simp_all add: dir_names_def short_rd1 short_rd2 short_rd3 dir_entry_def)

lemma short_name_disk_names: "\<not> third_level_names_ok sample_env sample_store short_name_disk"
  by (simp add: third_level_names_ok_def sample_env_def disk_env_def sample_mailPath
      short_dirs sample_joins)

lemma short_getMessages: "spec_getMessages \<lparr>RWMutex = ''48181acd22'', store = sample_store, name = [], dirName = ''48181acd22'',
         path = ''/d/mail/481/48181a/48181acd22'',
         indexPath = ''/d/mail/481/48181a/48181acd22/index.gob'', messages = []\<rparr> short_name_disk
    = (Inr [sample_record ''20230101T000000-0000''], short_name_disk)"
  by (simp add: spec_getMessages_def spec_load_def short_name_disk_def three_mailboxes_def)

lemma short_name_disk_run:
  "VisitMailboxes sample_env sample_store go_on ([], short_name_disk) =
     (Panic,
      ([(ReadDir ''/d/mail'', None), (ReadDir ''/d/mail/481'', None),
        (ReadDir ''/d/mail/481/48181a'', None), (RLock ''48181acd22'', None),
        (Mb_getMessages ''/d/mail/481/48181a/48181acd22'', None), (RUnlock ''48181acd22'', None),
        (Visit [sample_record ''20230101T000000-0000''] True, None)],
       short_name_disk))"
  using mboxFromHash_Panic [of sample_store "''tmp''"]
  by (simp add: VisitMailboxes_def traced_val_def noted_def visit_def go_on_def Let_def
      sample_env_def disk_env_def sample_mailPath short_rd1 short_rd2 short_rd3 sample_joins
      sample_mboxFromHash short_getMessages dir_entry_def)

theorem short_directory_name_panics_witness:
  "tree_kept sample_env sample_store go_on three_mailboxes \<and>
   third_level_names_ok sample_env sample_store three_mailboxes \<and>
   fst (VisitMailboxes sample_env sample_store go_on ([], three_mailboxes)) = Ok () \<and>
   tree_kept sample_env sample_store go_on short_name_disk \<and>
   \<not> third_level_names_ok sample_env sample_store short_name_disk \<and>
   disk_ReadDir ''/d/mail/481/48181a'' short_name_disk =
     (Inr [dir_entry ''48181acd22'', dir_entry ''tmp''], short_name_disk) \<and>
   VisitMailboxes sample_env sample_store go_on ([], short_name_disk) =
     (Panic,
      ([(ReadDir ''/d/mail'', None), (ReadDir ''/d/mail/481'', None),
        (ReadDir ''/d/mail/481/48181a'', None), (RLock ''48181acd22'', None),
        (Mb_getMessages ''/d/mail/481/48181a/48181acd22'', None), (RUnlock ''48181acd22'', None),
        (Visit [sample_record ''20230101T000000-0000''] True, None)],
       short_name_disk)) \<and>
   IsDir (dir_entry ''tmp'') \<and> length (Name (dir_entry ''tmp'')) < 6 \<and>
   visit_level3 sample_env sample_store go_on [dir_entry ''tmp'', dir_entry ''zzzzzz'']
      ([], short_name_disk) = (Some Panic, ([], short_name_disk)) \<and>
   mboxFromHash sample_store ''tmp'' = Panic"
proof -
  have k: "tree_kept sample_env sample_store go_on three_mailboxes"
    "tree_kept sample_env sample_store go_on short_name_disk"
    by (simp_all add: sample_env_def disk_env_tree_kept go_on_def)
  have d: "IsDir (dir_entry ''tmp'')" "length (Name (dir_entry ''tmp'')) < 6" "length ''tmp'' < 6"
    by (simp_all add: dir_entry_def)
  note t1 = short_directory_name_panics [of sample_store "''tmp''" "dir_entry ''tmp''" sample_env go_on
      "[dir_entry ''zzzzzz'']" "([], short_name_disk)"]
  note t2 = short_directory_name_panics [of sample_store "''tmp''" "dir_entry ''tmp''" sample_env go_on
      "[dir_entry ''zzzzzz'']" "([], three_mailboxes)"]
  have a: "mboxFromHash sample_store ''tmp'' = Panic"
    "visit_level3 sample_env sample_store go_on [dir_entry ''tmp'', dir_entry ''zzzzzz'']
      ([], short_name_disk) = (Some Panic, ([], short_name_disk))"
    using t1 d by blast+
  have "fst (VisitMailboxes sample_env sample_store go_on ([], short_name_disk)) = Panic \<or>
      (\<exists>e. fst (VisitMailboxes sample_env sample_store go_on ([], short_name_disk)) = Err e) \<or>
      list_ex is_stop (drop (length (fst ([]::event list, short_name_disk)))
        (fst (snd (VisitMailboxes sample_env sample_store go_on ([], short_name_disk)))))"
    using t1 k(2) short_name_disk_names by simp
  have b: "fst (VisitMailboxes sample_env sample_store go_on ([], three_mailboxes)) \<noteq> Panic"
    using t2 k(1) three_mailboxes_names_ok by simp
  from a b k d three_mailboxes_names_ok short_name_disk_names short_rd3
    short_name_disk_run three_visits(2)
  show ?thesis by blast
qed

section \<open>Adding a message\<close>

text \<open>Every way \<open>AddMessage\<close> can run between taking and releasing the lock.\<close>

lemma AddMessage_locked_cases:
  assumes "AddMessage_locked env mb m s = (r, mb', s')"
  shows
   "(\<exists>e. r = Err e \<and> fst s' = fst s @ [(OpenSource, Some e)]) \<or>
    (\<exists>e. r = Err e \<and> fst s' = fst s @ [(OpenSource, None), (Mb_newMessage, Some e)]) \<or>
    (\<exists>e d. r = Err e \<and>
       fst s' = fst s @ [(OpenSource, None), (Mb_newMessage, None), (Mb_createDir d, Some e)]) \<or>
    (\<exists>e d p. r = Err e \<and>
       fst s' = fst s @ [(OpenSource, None), (Mb_newMessage, None), (Mb_createDir d, None),
         (Create p, Some e)]) \<or>
    (\<exists>e d p y x w0. r = Err e \<and>
       fst s' = fst s @ [(OpenSource, None), (Mb_newMessage, None), (Mb_createDir d, None),
         (Create p, None), (Copy p, Some e), (CloseFile p, y), (Remove p, x)] \<and>
       os_Remove env p w0 = (x, snd s')) \<or>
    (\<exists>e d p c y x w0. r = Err e \<and>
       fst s' = fst s @ [(OpenSource, None), (Mb_newMessage, None), (Mb_createDir d, None),
         (Create p, None), (Copy p, None), (CloseSource, c), (Flush p, Some e), (CloseFile p, y),
         (Remove p, x)] \<and>
       os_Remove env p w0 = (x, snd s')) \<or>
    (\<exists>e d p c x w0. r = Err e \<and>
       fst s' = fst s @ [(OpenSource, None), (Mb_newMessage, None), (Mb_createDir d, None),
         (Create p, None), (Copy p, None), (CloseSource, c), (Flush p, None), (CloseFile p, Some e),
         (Remove p, x)] \<and>
       os_Remove env p w0 = (x, snd s')) \<or>
    (\<exists>e d p c q x w0. r = Err e \<and>
       fst s' = fst s @ [(OpenSource, None), (Mb_newMessage, None), (Mb_createDir d, None),
         (Create p, None), (Copy p, None), (CloseSource, c), (Flush p, None), (CloseFile p, None),
         (Mb_writeIndex q (messages mb'), Some e), (Remove p, x)] \<and>
       os_Remove env p w0 = (x, snd s') \<and> messages mb' \<noteq> [] \<and>
       Fdate (last (messages mb')) = Date m \<and> Ffrom (last (messages mb')) = From m \<and>
       Fto (last (messages mb')) = To m \<and> Fsubject (last (messages mb')) = Subject m \<and>
       p = rawPath mb' (last (messages mb'))) \<or>
    (\<exists>d p c q. r = Ok (Fid (last (messages mb'))) \<and>
       fst s' = fst s @ [(OpenSource, None), (Mb_newMessage, None), (Mb_createDir d, None),
         (Create p, None), (Copy p, None), (CloseSource, c), (Flush p, None), (CloseFile p, None),
         (Mb_writeIndex q (messages mb'), None)] \<and> messages mb' \<noteq> [])"
  using assms
  unfolding AddMessage_locked_def traced_def traced_val_def traced_new_def Let_def rawPath_def
  by (auto split: prod.splits sum.splits option.splits)


lemma AddMessage_cases:
  assumes "AddMessage env fs m s = (r, mbo, s')"
  shows "(mbo = None \<and> s' = s \<and> (r = Panic \<or> (\<exists>e. r = Err e))) \<or>
         (\<exists>mb mb' s1. mbox env fs (Mailbox m) = Ok mb \<and> mbo = Some mb' \<and>
            AddMessage_locked env mb m (fst s @ [(Lock (RWMutex mb), None)], snd s) = (r, mb', s1) \<and>
            s' = (fst s1 @ [(Unlock (RWMutex mb), None)], snd s1))"
  using assms
  by (auto simp: AddMessage_def noted_def split: outcome.splits prod.splits)

lemma primary_step_simps [simp]:
  "primary_step p (Copy p)" "primary_step p (Flush p)" "primary_step p (CloseFile p)"
  "primary_step p (Mb_writeIndex q l)"
  by (simp_all add: primary_step_def)

text \<open>
  C1. In a run of \<open>AddMessage\<close> that created the raw file \<open>p\<close> and then returns an
  error \<open>e\<close>: \<open>e\<close> is the error of the step that failed (the copy, the flush, closing the
  file or writing the index); after that step the file is at most closed, then
  \<^verbatim>\<open>os.Remove(p)\<close> is called, and nothing follows it but the deferred unlock. Whatever
  the removal returns (\<open>x\<close>) is dropped: the result is still \<open>e\<close>, and the world the call
  leaves is the one the removal left.
\<close>

theorem AddMessage_removes_raw_file:
  assumes "AddMessage env fs m ([], w) = (Err e, mbo, (tr, w'))"
    and "(Create p, None) \<in> set tr"
  shows "\<exists>pre c cl x k w0.
           tr = pre @ [(c, Some e)] @ cl @ [(Remove p, x), (Unlock k, None)] \<and>
           primary_step p c \<and> (cl = [] \<or> (\<exists>y. cl = [(CloseFile p, y)])) \<and>
           os_Remove env p w0 = (x, w')"
proof -
  from AddMessage_cases [OF assms(1)] assms(2)
  obtain mb mb' s1 where l: "AddMessage_locked env mb m ([(Lock (RWMutex mb), None)], w) = (Err e, mb', s1)"
    and t: "tr = fst s1 @ [(Unlock (RWMutex mb), None)]" and w: "w' = snd s1"
    by auto
  let ?k = "RWMutex mb"
  from AddMessage_locked_cases [OF l] t assms(2)
  consider
    (copy) d y x w0 where
      "fst s1 = [(Lock ?k, None), (OpenSource, None), (Mb_newMessage, None), (Mb_createDir d, None),
         (Create p, None), (Copy p, Some e), (CloseFile p, y), (Remove p, x)]"
      "os_Remove env p w0 = (x, snd s1)"
  | (flush) d c y x w0 where
      "fst s1 = [(Lock ?k, None), (OpenSource, None), (Mb_newMessage, None), (Mb_createDir d, None),
         (Create p, None), (Copy p, None), (CloseSource, c), (Flush p, Some e), (CloseFile p, y),
         (Remove p, x)]"
      "os_Remove env p w0 = (x, snd s1)"
  | (close) d c x w0 where
      "fst s1 = [(Lock ?k, None), (OpenSource, None), (Mb_newMessage, None), (Mb_createDir d, None),
         (Create p, None), (Copy p, None), (CloseSource, c), (Flush p, None), (CloseFile p, Some e),
         (Remove p, x)]"
      "os_Remove env p w0 = (x, snd s1)"
  | (index) d c q x w0 where
      "fst s1 = [(Lock ?k, None), (OpenSource, None), (Mb_newMessage, None), (Mb_createDir d, None),
         (Create p, None), (Copy p, None), (CloseSource, c), (Flush p, None), (CloseFile p, None),
         (Mb_writeIndex q (messages mb'), Some e), (Remove p, x)]"
      "os_Remove env p w0 = (x, snd s1)"
    by auto
  then show ?thesis
  proof cases
    case copy
    have "tr = [(Lock ?k, None), (OpenSource, None), (Mb_newMessage, None), (Mb_createDir d, None),
        (Create p, None)] @ [(Copy p, Some e)] @ [(CloseFile p, y)] @ [(Remove p, x), (Unlock ?k, None)]"
      using copy(1) t by simp
    with copy(2) w show ?thesis using primary_step_simps(1) [of p] by blast
  next
    case flush
    have "tr = [(Lock ?k, None), (OpenSource, None), (Mb_newMessage, None), (Mb_createDir d, None),
        (Create p, None), (Copy p, None), (CloseSource, c)] @ [(Flush p, Some e)] @ [(CloseFile p, y)] @
        [(Remove p, x), (Unlock ?k, None)]"
      using flush(1) t by simp
    with flush(2) w show ?thesis using primary_step_simps(2) [of p] by blast
  next
    case close
    have "tr = [(Lock ?k, None), (OpenSource, None), (Mb_newMessage, None), (Mb_createDir d, None),
        (Create p, None), (Copy p, None), (CloseSource, c), (Flush p, None)] @ [(CloseFile p, Some e)] @ [] @
        [(Remove p, x), (Unlock ?k, None)]"
      using close(1) t by simp
    with close(2) w show ?thesis using primary_step_simps(3) [of p] by blast
  next
    case index
    have "tr = [(Lock ?k, None), (OpenSource, None), (Mb_newMessage, None), (Mb_createDir d, None),
        (Create p, None), (Copy p, None), (CloseSource, c), (Flush p, None), (CloseFile p, None)] @
        [(Mb_writeIndex q (messages mb'), Some e)] @ [] @ [(Remove p, x), (Unlock ?k, None)]"
      using index(1) t by simp
    with index(2) w show ?thesis using primary_step_simps(4) [of p q "messages mb'"] by blast
  qed
qed


lemma sample_flush_fails:
  "fst (AddMessage sample_env sample_store sample_message ([], sample_disk\<lparr>failing := flush_fails\<rparr>)) =
     Err (Error ''disk full'')"
  "fst (snd (snd (AddMessage sample_env sample_store sample_message
      ([], sample_disk\<lparr>failing := flush_fails\<rparr>)))) =
     [(Lock ''48181acd22'', None), (OpenSource, None), (Mb_newMessage, None),
      (Mb_createDir ''/d/mail/481/48181a/48181acd22'', None),
      (Create ''/d/mail/481/48181a/48181acd22/20230101T000000-0000.raw'', None),
      (Copy ''/d/mail/481/48181a/48181acd22/20230101T000000-0000.raw'', None),
      (CloseSource, None),
      (Flush ''/d/mail/481/48181a/48181acd22/20230101T000000-0000.raw'', Some (Error ''disk full'')),
      (CloseFile ''/d/mail/481/48181a/48181acd22/20230101T000000-0000.raw'', None),
      (Remove ''/d/mail/481/48181a/48181acd22/20230101T000000-0000.raw'', Some (Error ''busy'')),
      (Unlock ''48181acd22'', None)]"
  apply (simp_all add: AddMessage_def sample_message_def sample_mbox_bob)
  apply (simp_all add: run_simps sample_disk_def sample_id flush_fails_def)
  done


lemma sample_index_fails:
  "fst (AddMessage sample_env sample_store sample_message ([], sample_disk\<lparr>failing := index_fails\<rparr>)) =
     Err (Error ''disk full'')"
  "fst (snd (snd (AddMessage sample_env sample_store sample_message
      ([], sample_disk\<lparr>failing := index_fails\<rparr>)))) =
     [(Lock ''48181acd22'', None), (OpenSource, None), (Mb_newMessage, None),
      (Mb_createDir ''/d/mail/481/48181a/48181acd22'', None),
      (Create ''/d/mail/481/48181a/48181acd22/20230101T000000-0000.raw'', None),
      (Copy ''/d/mail/481/48181a/48181acd22/20230101T000000-0000.raw'', None),
      (CloseSource, None),
      (Flush ''/d/mail/481/48181a/48181acd22/20230101T000000-0000.raw'', None),
      (CloseFile ''/d/mail/481/48181a/48181acd22/20230101T000000-0000.raw'', None),
      (Mb_writeIndex ''/d/mail/481/48181a/48181acd22/index.gob''
         [sample_record ''20230101T000000-0000''], Some (Error ''disk full'')),
      (Remove ''/d/mail/481/48181a/48181acd22/20230101T000000-0000.raw'', None),
      (Unlock ''48181acd22'', None)]"
  "map_option messages (fst (snd (AddMessage sample_env sample_store sample_message
      ([], sample_disk\<lparr>failing := index_fails\<rparr>)))) = Some [sample_record ''20230101T000000-0000'']"
  "nodes (snd (snd (snd (AddMessage sample_env sample_store sample_message
      ([], sample_disk\<lparr>failing := index_fails\<rparr>))))) =
     [(''/d/mail/481/48181a/48181acd22'', Dir), (''/d/mail/481/48181a'', Dir), (''/d/mail/481'', Dir),
      (''/d/mail'', Dir), (''/d'', Dir)]"
  "failing (snd (snd (snd (AddMessage sample_env sample_store sample_message
      ([], sample_disk\<lparr>failing := index_fails\<rparr>))))) = index_fails"
  apply (simp_all add: AddMessage_def sample_message_def sample_mbox_bob)
  apply (simp_all add: run_simps sample_disk_def sample_id sample_record_def index_fails_def)
  done


lemma triple_collapse: "X = (fst X, fst (snd X), (fst (snd (snd X)), snd (snd (snd X))))"
  by simp

theorem AddMessage_removes_raw_file_witness:
  "fst (AddMessage sample_env sample_store sample_message ([], sample_disk\<lparr>failing := flush_fails\<rparr>)) =
     Err (Error ''disk full'') \<and>
   (Create ''/d/mail/481/48181a/48181acd22/20230101T000000-0000.raw'', None) \<in>
     set (fst (snd (snd (AddMessage sample_env sample_store sample_message
       ([], sample_disk\<lparr>failing := flush_fails\<rparr>))))) \<and>
   (Remove ''/d/mail/481/48181a/48181acd22/20230101T000000-0000.raw'', Some (Error ''busy'')) \<in>
     set (fst (snd (snd (AddMessage sample_env sample_store sample_message
       ([], sample_disk\<lparr>failing := flush_fails\<rparr>))))) \<and>
   (\<exists>pre c cl x k w0.
      fst (snd (snd (AddMessage sample_env sample_store sample_message
        ([], sample_disk\<lparr>failing := flush_fails\<rparr>)))) =
      pre @ [(c, Some (Error ''disk full''))] @ cl @
        [(Remove ''/d/mail/481/48181a/48181acd22/20230101T000000-0000.raw'', x), (Unlock k, None)] \<and>
      primary_step ''/d/mail/481/48181a/48181acd22/20230101T000000-0000.raw'' c \<and>
      (cl = [] \<or> (\<exists>y. cl = [(CloseFile ''/d/mail/481/48181a/48181acd22/20230101T000000-0000.raw'', y)])) \<and>
      os_Remove sample_env ''/d/mail/481/48181a/48181acd22/20230101T000000-0000.raw'' w0 =
        (x, snd (snd (snd (AddMessage sample_env sample_store sample_message
          ([], sample_disk\<lparr>failing := flush_fails\<rparr>))))))"
proof -
  define X where "X = AddMessage sample_env sample_store sample_message ([], sample_disk\<lparr>failing := flush_fails\<rparr>)"
  let ?p = "''/d/mail/481/48181a/48181acd22/20230101T000000-0000.raw''"
  have r: "AddMessage sample_env sample_store sample_message ([], sample_disk\<lparr>failing := flush_fails\<rparr>) =
      (Err (Error ''disk full''), fst (snd X), (fst (snd (snd X)), snd (snd (snd X))))"
    using triple_collapse [of X] sample_flush_fails(1) by (simp add: X_def)
  have c: "(Create ?p, None) \<in> set (fst (snd (snd X)))"
    and d: "(Remove ?p, Some (Error ''busy'')) \<in> set (fst (snd (snd X)))"
    by (simp_all add: X_def sample_flush_fails(2))
  from AddMessage_removes_raw_file [OF r c] c d sample_flush_fails(1)
  show ?thesis unfolding X_def by blast
qed

text \<open>
  Against C6 as it is stated: the stream is opened, the copy fails, and \<open>AddMessage\<close>
  returns without closing the stream.
\<close>

theorem AddMessage_copy_failure_leaves_source_open:
  "fst (AddMessage sample_env sample_store sample_message ([], sample_disk\<lparr>failing := copy_fails\<rparr>)) =
     Err (Error ''disk full'') \<and>
   fst (snd (snd (AddMessage sample_env sample_store sample_message
      ([], sample_disk\<lparr>failing := copy_fails\<rparr>)))) =
     [(Lock ''48181acd22'', None), (OpenSource, None), (Mb_newMessage, None),
      (Mb_createDir ''/d/mail/481/48181a/48181acd22'', None),
      (Create ''/d/mail/481/48181a/48181acd22/20230101T000000-0000.raw'', None),
      (Copy ''/d/mail/481/48181a/48181acd22/20230101T000000-0000.raw'', Some (Error ''disk full'')),
      (CloseFile ''/d/mail/481/48181a/48181acd22/20230101T000000-0000.raw'', None),
      (Remove ''/d/mail/481/48181a/48181acd22/20230101T000000-0000.raw'', None),
      (Unlock ''48181acd22'', None)] \<and>
   CloseSource \<notin> set (map fst (fst (snd (snd (AddMessage sample_env sample_store sample_message
      ([], sample_disk\<lparr>failing := copy_fails\<rparr>))))))"
  apply (simp_all add: AddMessage_def sample_message_def sample_mbox_bob)
  apply (simp_all add: run_simps sample_disk_def sample_id copy_fails_def)
  done

text \<open>
  C6, amended. In a run of \<open>AddMessage\<close> in which \<^verbatim>\<open>io.Copy\<close> returned no error (it
  then has read the stream to its end), the stream was opened before, \<^verbatim>\<open>r.Close()\<close> is
  the very next call after the copy, and it is the only close of the stream, whether the
  flush, closing the file or writing the index succeed or fail afterwards.
\<close>

theorem AddMessage_closes_source_after_copy:
  assumes "AddMessage env fs m ([], w) = (r, mbo, (tr, w'))"
    and "(Copy p, None) \<in> set tr"
  shows "\<exists>pre c post. tr = pre @ [(Copy p, None), (CloseSource, c)] @ post \<and>
           (OpenSource, None) \<in> set pre \<and>
           CloseSource \<notin> set (map fst pre) \<and> CloseSource \<notin> set (map fst post)"
proof -
  from AddMessage_cases [OF assms(1)] assms(2)
  obtain mb mb' s1 where l: "AddMessage_locked env mb m ([(Lock (RWMutex mb), None)], w) = (r, mb', s1)"
    and t: "tr = fst s1 @ [(Unlock (RWMutex mb), None)]"
    by auto
  let ?k = "RWMutex mb"
  from AddMessage_locked_cases [OF l] t assms(2)
  obtain d c rest where
    f: "fst s1 = [(Lock ?k, None), (OpenSource, None), (Mb_newMessage, None), (Mb_createDir d, None),
         (Create p, None)] @ [(Copy p, None), (CloseSource, c)] @ rest"
    and n: "CloseSource \<notin> set (map fst rest)"
    by auto
  have "tr = [(Lock ?k, None), (OpenSource, None), (Mb_newMessage, None), (Mb_createDir d, None),
         (Create p, None)] @ [(Copy p, None), (CloseSource, c)] @ (rest @ [(Unlock ?k, None)])"
    using f t by simp
  moreover have "CloseSource \<notin> set (map fst (rest @ [(Unlock ?k, None)]))" using n by simp
  moreover have "(OpenSource, None) \<in> set [(Lock ?k, None), (OpenSource, None), (Mb_newMessage, None),
      (Mb_createDir d, None), (Create p, None)]" by simp
  moreover have "CloseSource \<notin> set (map fst [(Lock ?k, None), (OpenSource, None), (Mb_newMessage, None),
      (Mb_createDir d, None), (Create p, None)])" by simp
  ultimately show ?thesis by blast
qed

theorem AddMessage_closes_source_after_copy_witness:
  "(Copy ''/d/mail/481/48181a/48181acd22/20230101T000000-0000.raw'', None) \<in>
     set (fst (snd (snd (AddMessage sample_env sample_store sample_message
       ([], sample_disk\<lparr>failing := flush_fails\<rparr>))))) \<and>
   (\<exists>pre c post.
      fst (snd (snd (AddMessage sample_env sample_store sample_message
        ([], sample_disk\<lparr>failing := flush_fails\<rparr>)))) =
      pre @ [(Copy ''/d/mail/481/48181a/48181acd22/20230101T000000-0000.raw'', None), (CloseSource, c)] @ post \<and>
      (OpenSource, None) \<in> set pre \<and>
      CloseSource \<notin> set (map fst pre) \<and> CloseSource \<notin> set (map fst post))"
proof -
  define X where "X = AddMessage sample_env sample_store sample_message ([], sample_disk\<lparr>failing := flush_fails\<rparr>)"
  let ?p = "''/d/mail/481/48181a/48181acd22/20230101T000000-0000.raw''"
  have r: "AddMessage sample_env sample_store sample_message ([], sample_disk\<lparr>failing := flush_fails\<rparr>) =
      (fst X, fst (snd X), (fst (snd (snd X)), snd (snd (snd X))))"
    using triple_collapse [of X] by (simp add: X_def)
  have c: "(Copy ?p, None) \<in> set (fst (snd (snd X)))"
    by (simp add: X_def sample_flush_fails(2))
  from AddMessage_closes_source_after_copy [OF r c] c
  show ?thesis unfolding X_def by blast
qed


lemma fresh_descriptor:
  "mbox env fs n = Ok mb \<Longrightarrow> messages mb = []"
  "mboxFromHash fs h = Ok mb \<Longrightarrow> messages mb = []"
  by (auto simp: mbox_def mboxFromHash_def Let_def split: sum.splits option.splits)

lemma GetMessages_fresh:
  "mbox env fs n = Ok mb \<Longrightarrow> fst (GetMessages env fs n s) = out_of (fst (getMessages env mb (snd s)))"
  by (simp add: GetMessages_def traced_val_def noted_def split: prod.splits)

text \<open>
  C8. In a run of \<open>AddMessage\<close> in which writing the index fails with \<open>e\<close>: the result
  is \<open>e\<close>; the in-memory list of the call is still the list \<open>l\<close> that could not be
  written, whose last record is the new one (with the date, sender, recipients and subject
  of the message): nothing takes the record out again; the raw file of that record is
  removed right after the failed write and nothing follows but the unlock. The list lives
  in the mailbox descriptor of the call: every descriptor that \<open>mbox\<close> or
  \<open>mboxFromHash\<close> builds starts with an empty list, and \<open>GetMessages\<close> answers with
  what \<open>getMessages\<close> makes of such a descriptor and the world.
\<close>

theorem AddMessage_index_failure_keeps_record:
  assumes "AddMessage env fs m ([], w) = (r, mbo, (tr, w'))"
    and "(Mb_writeIndex q l, Some e) \<in> set tr"
  shows "r = Err e \<and>
         (\<exists>mb' pre x k w0. mbo = Some mb' \<and> messages mb' = l \<and> l \<noteq> [] \<and>
            Fdate (last l) = Date m \<and> Ffrom (last l) = From m \<and> Fto (last l) = To m \<and>
            Fsubject (last l) = Subject m \<and>
            tr = pre @ [(Mb_writeIndex q l, Some e), (Remove (rawPath mb' (last l)), x), (Unlock k, None)] \<and>
            os_Remove env (rawPath mb' (last l)) w0 = (x, w')) \<and>
         (\<forall>n mb. mbox env fs n = Ok mb \<longrightarrow>
            messages mb = [] \<and>
            (\<forall>s. fst (GetMessages env fs n s) = out_of (fst (getMessages env mb (snd s))))) \<and>
         (\<forall>h mb. mboxFromHash fs h = Ok mb \<longrightarrow> messages mb = [])"
proof -
  from AddMessage_cases [OF assms(1)] assms(2)
  obtain mb mb' s1 where l: "AddMessage_locked env mb m ([(Lock (RWMutex mb), None)], w) = (r, mb', s1)"
    and t: "tr = fst s1 @ [(Unlock (RWMutex mb), None)]" and w: "w' = snd s1" and o: "mbo = Some mb'"
    by auto
  let ?k = "RWMutex mb"
  from AddMessage_locked_cases [OF l] t assms(2)
  obtain d p c x w0 where
    f: "fst s1 = [(Lock ?k, None), (OpenSource, None), (Mb_newMessage, None), (Mb_createDir d, None),
         (Create p, None), (Copy p, None), (CloseSource, c), (Flush p, None), (CloseFile p, None)] @
         [(Mb_writeIndex q l, Some e), (Remove p, x)]"
    and g: "r = Err e" "messages mb' = l" "l \<noteq> []" "os_Remove env p w0 = (x, snd s1)"
      "Fdate (last l) = Date m" "Ffrom (last l) = From m" "Fto (last l) = To m"
      "Fsubject (last l) = Subject m" "p = rawPath mb' (last l)"
    by auto
  have "tr = [(Lock ?k, None), (OpenSource, None), (Mb_newMessage, None), (Mb_createDir d, None),
         (Create p, None), (Copy p, None), (CloseSource, c), (Flush p, None), (CloseFile p, None)] @
         [(Mb_writeIndex q l, Some e), (Remove (rawPath mb' (last l)), x), (Unlock ?k, None)]"
    using f t g(9) by simp
  with g o w have "\<exists>mb' pre x k w0. mbo = Some mb' \<and> messages mb' = l \<and> l \<noteq> [] \<and>
            Fdate (last l) = Date m \<and> Ffrom (last l) = From m \<and> Fto (last l) = To m \<and>
            Fsubject (last l) = Subject m \<and>
            tr = pre @ [(Mb_writeIndex q l, Some e), (Remove (rawPath mb' (last l)), x), (Unlock k, None)] \<and>
            os_Remove env (rawPath mb' (last l)) w0 = (x, w')"
    by blast
  with g(1) show ?thesis
    using fresh_descriptor GetMessages_fresh by blast
qed

lemma disk_after_index_failure:
  "fst (GetMessages sample_env sample_store ''bob''
     ([], snd (snd (snd (AddMessage sample_env sample_store sample_message
        ([], sample_disk\<lparr>failing := index_fails\<rparr>)))))) = Ok []"
proof -
  define D where "D = snd (snd (snd (AddMessage sample_env sample_store sample_message
        ([], sample_disk\<lparr>failing := index_fails\<rparr>))))"
  have n: "nodes D = [(''/d/mail/481/48181a/48181acd22'', Dir), (''/d/mail/481/48181a'', Dir),
      (''/d/mail/481'', Dir), (''/d/mail'', Dir), (''/d'', Dir)]"
    and f: "failing D = index_fails"
    by (simp_all add: D_def sample_index_fails(4,5))
  have "fst (GetMessages sample_env sample_store ''bob'' ([], D)) = Ok []"
    apply (simp add: GetMessages_def sample_mbox_bob)
    apply (simp add: traced_val_def noted_def sample_env_def disk_env_def spec_getMessages_def
        spec_load_def out_of_def n f index_fails_def)
    done
  then show ?thesis by (simp add: D_def)
qed

theorem AddMessage_index_failure_keeps_record_witness:
  "(Mb_writeIndex ''/d/mail/481/48181a/48181acd22/index.gob'' [sample_record ''20230101T000000-0000''],
      Some (Error ''disk full'')) \<in>
     set (fst (snd (snd (AddMessage sample_env sample_store sample_message
       ([], sample_disk\<lparr>failing := index_fails\<rparr>))))) \<and>
   fst (AddMessage sample_env sample_store sample_message ([], sample_disk\<lparr>failing := index_fails\<rparr>)) =
     Err (Error ''disk full'') \<and>
   map_option messages (fst (snd (AddMessage sample_env sample_store sample_message
      ([], sample_disk\<lparr>failing := index_fails\<rparr>)))) = Some [sample_record ''20230101T000000-0000''] \<and>
   map_of (nodes (snd (snd (snd (AddMessage sample_env sample_store sample_message
      ([], sample_disk\<lparr>failing := index_fails\<rparr>))))))
      ''/d/mail/481/48181a/48181acd22/20230101T000000-0000.raw'' = None \<and>
   fst (GetMessages sample_env sample_store ''bob''
     ([], snd (snd (snd (AddMessage sample_env sample_store sample_message
        ([], sample_disk\<lparr>failing := index_fails\<rparr>)))))) = Ok []"
proof -
  define X where "X = AddMessage sample_env sample_store sample_message ([], sample_disk\<lparr>failing := index_fails\<rparr>)"
  let ?q = "''/d/mail/481/48181a/48181acd22/index.gob''"
  let ?l = "[sample_record ''20230101T000000-0000'']"
  have r: "AddMessage sample_env sample_store sample_message ([], sample_disk\<lparr>failing := index_fails\<rparr>) =
      (fst X, fst (snd X), (fst (snd (snd X)), snd (snd (snd X))))"
    using triple_collapse [of X] by (simp add: X_def)
  have c: "(Mb_writeIndex ?q ?l, Some (Error ''disk full'')) \<in> set (fst (snd (snd X)))"
    by (simp add: X_def sample_index_fails(2))
  from AddMessage_index_failure_keeps_record [OF r c]
  have "fst X = Err (Error ''disk full'')" "\<exists>mb'. fst (snd X) = Some mb' \<and> messages mb' = ?l"
    by blast+
  then have "fst X = Err (Error ''disk full'')" "map_option messages (fst (snd X)) = Some ?l"
    by auto
  moreover have "map_of (nodes (snd (snd (snd X)))) ''/d/mail/481/48181a/48181acd22/20230101T000000-0000.raw'' = None"
    by (simp add: X_def sample_index_fails(4))
  ultimately show ?thesis
    using c disk_after_index_failure unfolding X_def by blast
qed

section \<open>Constructing the store\<close>

lemma New_result:
  "fst (New env cfg s) =
     (if Path cfg = [] then None
      else Some \<lparr>Store_path = Path cfg, mailPath = filepath_Join [Path cfg, ''mail''],
                 messageCap = MailboxMsgCap cfg\<rparr>)"
  by (simp add: New_def Let_def split: prod.splits option.splits)

lemma New_trace:
  assumes "Path cfg \<noteq> []"
  shows "os_Stat env (filepath_Join [Path cfg, ''mail'']) (snd s) = (None, w1) \<Longrightarrow>
           snd (New env cfg s) = (fst s @ [(Stat (filepath_Join [Path cfg, ''mail'']), None)], w1)"
    and "os_Stat env (filepath_Join [Path cfg, ''mail'']) (snd s) = (Some e1, w1) \<Longrightarrow>
         os_MkdirAll env (filepath_Join [Path cfg, ''mail'']) w1 = (None, w2) \<Longrightarrow>
           snd (New env cfg s) =
             (fst s @ [(Stat (filepath_Join [Path cfg, ''mail'']), Some e1),
                       (MkdirAll (filepath_Join [Path cfg, ''mail'']), None)], w2)"
    and "os_Stat env (filepath_Join [Path cfg, ''mail'']) (snd s) = (Some e1, w1) \<Longrightarrow>
         os_MkdirAll env (filepath_Join [Path cfg, ''mail'']) w1 = (Some e2, w2) \<Longrightarrow>
           snd (New env cfg s) =
             (fst s @ [(Stat (filepath_Join [Path cfg, ''mail'']), Some e1),
                       (MkdirAll (filepath_Join [Path cfg, ''mail'']), Some e2),
                       (Errorf ''Error creating dir'', None)], w2)"
  using assms by (simp_all add: New_def Let_def traced_def noted_def)

text \<open>
  Against C5 as it is stated: the root path is set, the mail directory does not exist and
  cannot be created; \<open>New\<close> logs the error and returns a store all the same.
\<close>

theorem New_returns_store_when_mkdir_fails:
  "New sample_env \<lparr>Path = ''/d'', MailboxMsgCap = 0\<rparr> ([], sample_disk\<lparr>failing := mkdir_fails\<rparr>) =
     (Some \<lparr>Store_path = ''/d'', mailPath = ''/d/mail'', messageCap = 0\<rparr>,
      ([(Stat ''/d/mail'', Some (Error ''no such file or directory'')),
        (MkdirAll ''/d/mail'', Some (Error ''permission denied'')),
        (Errorf ''Error creating dir'', None)],
       sample_disk\<lparr>failing := mkdir_fails\<rparr>))"
  by (simp add: New_def Let_def traced_def noted_def sample_env_def disk_env_def disk_Stat_def
      disk_MkdirAll_def failing_or_def sample_disk_def mkdir_fails_def
      filepath_Join_def filepath_Clean_def)

text \<open>
  C5, amended. \<open>New\<close> returns \<^verbatim>\<open>nil\<close> exactly when the configured root path is unset,
  and then it has logged an error and touched nothing. With a root path it returns a store
  that holds the path, the mail directory under it and the message cap of the
  configuration, whatever \<^verbatim>\<open>os.Stat\<close> and \<^verbatim>\<open>os.MkdirAll\<close> answer: when the mail
  directory is there, \<open>New\<close> has only looked for it; when it is missing and could be
  created, \<open>New\<close> has created it and logged nothing; when it is missing and could not
  be created, \<open>New\<close> has logged the error, as its last step, and returns the store.
\<close>

theorem New_nil_iff_path_unset:
  "(fst (New env cfg s) = None \<longleftrightarrow> Path cfg = []) \<and>
   (Path cfg = [] \<longrightarrow>
      New env cfg s = (None, (fst s @ [(Errorf ''No value configured for datastore path'', None)], snd s))) \<and>
   (Path cfg \<noteq> [] \<longrightarrow>
      fst (New env cfg s) =
        Some \<lparr>Store_path = Path cfg, mailPath = filepath_Join [Path cfg, ''mail''],
              messageCap = MailboxMsgCap cfg\<rparr> \<and>
      (\<forall>w1. os_Stat env (filepath_Join [Path cfg, ''mail'']) (snd s) = (None, w1) \<longrightarrow>
         snd (New env cfg s) = (fst s @ [(Stat (filepath_Join [Path cfg, ''mail'']), None)], w1)) \<and>
      (\<forall>e1 w1 w2. os_Stat env (filepath_Join [Path cfg, ''mail'']) (snd s) = (Some e1, w1) \<and>
         os_MkdirAll env (filepath_Join [Path cfg, ''mail'']) w1 = (None, w2) \<longrightarrow>
         snd (New env cfg s) =
           (fst s @ [(Stat (filepath_Join [Path cfg, ''mail'']), Some e1),
                     (MkdirAll (filepath_Join [Path cfg, ''mail'']), None)], w2)) \<and>
      (\<forall>e1 w1 e2 w2. os_Stat env (filepath_Join [Path cfg, ''mail'']) (snd s) = (Some e1, w1) \<and>
         os_MkdirAll env (filepath_Join [Path cfg, ''mail'']) w1 = (Some e2, w2) \<longrightarrow>
         snd (New env cfg s) =
           (fst s @ [(Stat (filepath_Join [Path cfg, ''mail'']), Some e1),
                     (MkdirAll (filepath_Join [Path cfg, ''mail'']), Some e2),
                     (Errorf ''Error creating dir'', None)], w2)))"
proof -
  have "Path cfg = [] \<longrightarrow>
      New env cfg s = (None, (fst s @ [(Errorf ''No value configured for datastore path'', None)], snd s))"
    by (simp add: New_def noted_def)
  then show ?thesis using New_result [of env cfg s] New_trace [of cfg env s] by auto
qed

lemma sample_stat:
  "os_Stat sample_env ''/d/mail'' (sample_disk\<lparr>failing := fl\<rparr>) =
     (case fl (Stat ''/d/mail'') of Some e \<Rightarrow> Some e | None \<Rightarrow> Some (Error ''no such file or directory''),
      sample_disk\<lparr>failing := fl\<rparr>)"
  by (simp add: sample_env_def disk_env_def disk_Stat_def failing_or_def sample_disk_def
      split: option.splits)

theorem New_nil_iff_path_unset_witness:
  "Path \<lparr>Path = ''/d'', MailboxMsgCap = 0\<rparr> \<noteq> [] \<and>
   fst (New sample_env \<lparr>Path = ''/d'', MailboxMsgCap = 0\<rparr> ([], sample_disk)) =
     Some \<lparr>Store_path = ''/d'', mailPath = ''/d/mail'', messageCap = 0\<rparr> \<and>
   Path \<lparr>Path = [], MailboxMsgCap = 0\<rparr> = [] \<and>
   New sample_env \<lparr>Path = [], MailboxMsgCap = 0\<rparr> ([], sample_disk) =
     (None, ([(Errorf ''No value configured for datastore path'', None)], sample_disk)) \<and>
   os_Stat sample_env ''/d/mail'' (sample_disk\<lparr>failing := mkdir_fails\<rparr>) =
     (Some (Error ''no such file or directory''), sample_disk\<lparr>failing := mkdir_fails\<rparr>) \<and>
   os_MkdirAll sample_env ''/d/mail'' (sample_disk\<lparr>failing := mkdir_fails\<rparr>) =
     (Some (Error ''permission denied''), sample_disk\<lparr>failing := mkdir_fails\<rparr>) \<and>
   snd (New sample_env \<lparr>Path = ''/d'', MailboxMsgCap = 0\<rparr> ([], sample_disk\<lparr>failing := mkdir_fails\<rparr>)) =
     ([(Stat ''/d/mail'', Some (Error ''no such file or directory'')),
       (MkdirAll ''/d/mail'', Some (Error ''permission denied'')),
       (Errorf ''Error creating dir'', None)],
      sample_disk\<lparr>failing := mkdir_fails\<rparr>) \<and>
   fst (snd (New sample_env \<lparr>Path = ''/d'', MailboxMsgCap = 0\<rparr> ([], sample_disk))) =
     [(Stat ''/d/mail'', Some (Error ''no such file or directory'')), (MkdirAll ''/d/mail'', None)]"
proof -
  have j: "filepath_Join [''/d'', ''mail''] = ''/d/mail''"
    by (simp add: filepath_Join_def filepath_Clean_def Let_def)
  have a: "os_Stat sample_env ''/d/mail'' (sample_disk\<lparr>failing := mkdir_fails\<rparr>) =
     (Some (Error ''no such file or directory''), sample_disk\<lparr>failing := mkdir_fails\<rparr>)"
    by (simp add: sample_stat mkdir_fails_def)
  have b: "os_MkdirAll sample_env ''/d/mail'' (sample_disk\<lparr>failing := mkdir_fails\<rparr>) =
     (Some (Error ''permission denied''), sample_disk\<lparr>failing := mkdir_fails\<rparr>)"
    by (simp add: sample_env_def disk_env_def disk_MkdirAll_def failing_or_def mkdir_fails_def)
  have c: "os_Stat sample_env ''/d/mail'' sample_disk =
     (Some (Error ''no such file or directory''), sample_disk)"
    by (simp add: sample_env_def disk_env_def disk_Stat_def failing_or_def sample_disk_def)
  obtain d' where d: "os_MkdirAll sample_env ''/d/mail'' sample_disk = (None, d')"
    by (simp add: sample_env_def disk_env_def disk_MkdirAll_def failing_or_def sample_disk_def
        mkdir_all_def ancestors_def elems_of_def path_of_def is_file_def)
  note t1 = New_nil_iff_path_unset [of sample_env "\<lparr>Path = ''/d'', MailboxMsgCap = 0\<rparr>"
      "([], sample_disk\<lparr>failing := mkdir_fails\<rparr>)"]
  note t2 = New_nil_iff_path_unset [of sample_env "\<lparr>Path = ''/d'', MailboxMsgCap = 0\<rparr>" "([], sample_disk)"]
  note t3 = New_nil_iff_path_unset [of sample_env "\<lparr>Path = [], MailboxMsgCap = 0\<rparr>" "([], sample_disk)"]
  have m: "snd (New sample_env \<lparr>Path = ''/d'', MailboxMsgCap = 0\<rparr> ([], sample_disk\<lparr>failing := mkdir_fails\<rparr>)) =
     ([(Stat ''/d/mail'', Some (Error ''no such file or directory'')),
       (MkdirAll ''/d/mail'', Some (Error ''permission denied'')),
       (Errorf ''Error creating dir'', None)],
      sample_disk\<lparr>failing := mkdir_fails\<rparr>)"
    using t1 a b by (simp add: j)
  have n: "fst (snd (New sample_env \<lparr>Path = ''/d'', MailboxMsgCap = 0\<rparr> ([], sample_disk))) =
     [(Stat ''/d/mail'', Some (Error ''no such file or directory'')), (MkdirAll ''/d/mail'', None)]"
    using t2 c d by (simp add: j)
  from t2 t3 a b m n show ?thesis by (simp add: j)
qed

section \<open>The message cap\<close>

lemma with_cap_simps [simp]:
  "path (with_cap c mb) = path mb" "indexPath (with_cap c mb) = indexPath mb"
  "RWMutex (with_cap c mb) = RWMutex mb" "messages (with_cap c mb) = messages mb"
  "dirName (with_cap c mb) = dirName mb" "name (with_cap c mb) = name mb"
  "rawPath (with_cap c mb) fm = rawPath mb fm"
  "(with_cap c mb)\<lparr>messages := l\<rparr> = with_cap c (mb\<lparr>messages := l\<rparr>)"
  by (simp_all add: with_cap_def rawPath_def)




















end
